theory Spec2Isabelle
  imports Complex_Main
begin

section \<open>Redundant internal coordinates and the Wilson B-matrix\<close>

text \<open>
  A shallow embedding of \<^verbatim>\<open>pysisyphus/InternalCoordinates.py\<close>.

  numpy's float64 numbers are modelled as \<^typ>\<open>real\<close>: every statement below is about
  the exact arithmetic the code approximates. An exception of the Python code is a value
  \<open>Inl e\<close>. numpy does not raise on a division by zero: it goes on with \<open>nan\<close> or
  \<open>inf\<close> entries. A real number cannot carry such a value, so a row builder that divides
  by zero has the result \<open>Inl NonFinite\<close>; \<open>Inr row\<close> therefore means that every entry
  of numpy's row is a finite number. The matrix keeps a row of either kind.
\<close>

subsection \<open>Errors\<close>

datatype error = KeyError string | IndexError | ValueError | AssertionError | NonFinite

definition ebind :: "error + 'a \<Rightarrow> ('a \<Rightarrow> error + 'b) \<Rightarrow> error + 'b" where
  "ebind m f = (case m of Inl e \<Rightarrow> Inl e | Inr x \<Rightarrow> f x)"

text \<open>A list comprehension whose body may raise: the first error ends it.\<close>

fun emap :: "('a \<Rightarrow> error + 'b) \<Rightarrow> 'a list \<Rightarrow> error + 'b list" where
  "emap f [] = Inr []"
| "emap f (x # xs) = ebind (f x) (\<lambda>y. ebind (emap f xs) (\<lambda>ys. Inr (y # ys)))"

text \<open>\<^verbatim>\<open>xs[i]\<close> for an index that is not negative.\<close>

definition getitem :: "'a list \<Rightarrow> nat \<Rightarrow> error + 'a" where
  "getitem xs i = (if i < length xs then Inr (xs ! i) else Inl IndexError)"

subsection \<open>Vectors of three coordinates\<close>

type_synonym vec3 = "real \<times> real \<times> real"

fun vadd :: "vec3 \<Rightarrow> vec3 \<Rightarrow> vec3" where
  "vadd (a1, a2, a3) (b1, b2, b3) = (a1 + b1, a2 + b2, a3 + b3)"

fun vsub :: "vec3 \<Rightarrow> vec3 \<Rightarrow> vec3" where
  "vsub (a1, a2, a3) (b1, b2, b3) = (a1 - b1, a2 - b2, a3 - b3)"

fun vneg :: "vec3 \<Rightarrow> vec3" where
  "vneg (a1, a2, a3) = (- a1, - a2, - a3)"

fun vscale :: "vec3 \<Rightarrow> real \<Rightarrow> vec3" where
  "vscale (a1, a2, a3) s = (a1 * s, a2 * s, a3 * s)"

fun vdot :: "vec3 \<Rightarrow> vec3 \<Rightarrow> real" where
  "vdot (a1, a2, a3) (b1, b2, b3) = a1 * b1 + a2 * b2 + a3 * b3"

fun vcross :: "vec3 \<Rightarrow> vec3 \<Rightarrow> vec3" where
  "vcross (a1, a2, a3) (b1, b2, b3) = (a2 * b3 - a3 * b2, a3 * b1 - a1 * b3, a1 * b2 - a2 * b1)"

fun vnorm :: "vec3 \<Rightarrow> real" where
  "vnorm (a1, a2, a3) = sqrt (a1\<^sup>2 + a2\<^sup>2 + a3\<^sup>2)"

text \<open>\<^verbatim>\<open>vec / s\<close>: numpy fills the result with \<open>nan\<close> or \<open>inf\<close> when \<open>s\<close> is zero.\<close>

fun vdiv :: "vec3 \<Rightarrow> real \<Rightarrow> error + vec3" where
  "vdiv (a1, a2, a3) s = (if s = 0 then Inl NonFinite else Inr (a1 / s, a2 / s, a3 / s))"

definition fdiv :: "real \<Rightarrow> real \<Rightarrow> error + real" where
  "fdiv a s = (if s = 0 then Inl NonFinite else Inr (a / s))"

definition vzero :: vec3 where
  "vzero = (0, 0, 0)"

subsection \<open>The geometry\<close>

text \<open>
  The geometry class is not part of the module. The code reads two of its fields:
  \<^verbatim>\<open>geom.atoms\<close>, the element symbols, and \<^verbatim>\<open>geom.coords\<close>, the flat array of the
  \<open>3N\<close> Cartesian coordinates.
\<close>

record geometry =
  atoms :: "string list"
  coords :: "real list"

text \<open>\<^verbatim>\<open>coords.reshape(-1, 3)\<close>: a ValueError unless the length is a multiple of three.\<close>

fun reshape3 :: "real list \<Rightarrow> error + vec3 list" where
  "reshape3 [] = Inr []"
| "reshape3 (x # y # z # rest) = ebind (reshape3 rest) (\<lambda>vs. Inr ((x, y, z) # vs))"
| "reshape3 _ = Inl ValueError"

text \<open>\<^verbatim>\<open>row.flatten()\<close> of an \<open>(N, 3)\<close> array.\<close>

fun flatten :: "vec3 list \<Rightarrow> real list" where
  "flatten [] = []"
| "flatten ((x, y, z) # vs) = x # y # z # flatten vs"

text \<open>The block of atom \<open>k\<close> in a flat row: its entries \<open>3k\<close>, \<open>3k+1\<close>, \<open>3k+2\<close>.\<close>

definition block :: "real list \<Rightarrow> nat \<Rightarrow> vec3" where
  "block row k = (row ! (3 * k), row ! (3 * k + 1), row ! (3 * k + 2))"

subsection \<open>Rows of the B-matrix\<close>

text \<open>\<^verbatim>\<open>get_bond_B\<close>\<close>

definition get_bond_B :: "geometry \<Rightarrow> nat \<times> nat \<Rightarrow> error + real list" where
  "get_bond_B geom bond_ind =
     ebind (reshape3 (coords geom)) (\<lambda>coords.
       case bond_ind of (n, m) \<Rightarrow>
         ebind (getitem coords m) (\<lambda>cm.
         ebind (getitem coords n) (\<lambda>cn.
           let bond = vsub cm cn;
               bond_length = vnorm bond
           in ebind (vdiv bond bond_length) (\<lambda>bond_normed.
             let row = replicate (length coords) vzero;
                 row = row[m := vscale bond_normed 1];
                 row = row[n := vscale bond_normed (- 1)]
             in Inr (flatten row)))))"

text \<open>
  \<^verbatim>\<open>are_parallel\<close>, the local function of \<^verbatim>\<open>get_angle_B\<close>. One of its callers passes
  a vector that is not normalised, so the scalar product may lie outside \<open>[-1, 1]\<close>: there
  numpy's \<^verbatim>\<open>arccos\<close> is \<open>nan\<close>, and a comparison with \<open>nan\<close> is false.
\<close>

definition are_parallel :: "vec3 \<Rightarrow> vec3 \<Rightarrow> real \<Rightarrow> bool" where
  "are_parallel vec1 vec2 thresh =
     (let d = vdot vec1 vec2
      in if - 1 \<le> d \<and> d \<le> 1 then (let rad = arccos d in \<bar>rad\<bar> > pi - thresh) else False)"

text \<open>\<^verbatim>\<open>get_angle_B\<close>\<close>

definition get_angle_B :: "geometry \<Rightarrow> nat \<times> nat \<times> nat \<Rightarrow> error + real list" where
  "get_angle_B geom angle_ind =
     ebind (reshape3 (coords geom)) (\<lambda>coords.
       case angle_ind of (m, o', n) \<Rightarrow>
         ebind (getitem coords m) (\<lambda>cm.
         ebind (getitem coords o') (\<lambda>co.
         ebind (getitem coords n) (\<lambda>cn.
           let u_dash = vsub cm co;
               v_dash = vsub cn co;
               u_norm = vnorm u_dash;
               v_norm = vnorm v_dash
           in ebind (vdiv u_dash u_norm) (\<lambda>u.
              ebind (vdiv v_dash v_norm) (\<lambda>v.
                let rad = arccos (vdot u v);
                    w_dash =
                      (if are_parallel u v (1 / 1000000)
                       then (let tmp_vec = (1, - 1, 1);
                                 par = (are_parallel u tmp_vec (1 / 1000000)
                                        \<and> are_parallel v tmp_vec (1 / 1000000));
                                 tmp_vec = (if par then (- 1, 1, 1) else tmp_vec)
                             in vcross u tmp_vec)
                       else vcross u v);
                    w_norm = vnorm w_dash
                in ebind (vdiv w_dash w_norm) (\<lambda>w.
                  let uxw = vcross u w;
                      wxv = vcross w v;
                      row = replicate (length coords) vzero
                  in ebind (vdiv uxw u_norm) (\<lambda>first_term.
                     ebind (vdiv wxv v_norm) (\<lambda>second_term.
                       let row = row[m := first_term];
                           row = row[o' := vsub (vneg first_term) second_term];
                           row = row[n := second_term]
                       in Inr (flatten row))))))))))"

text \<open>\<^verbatim>\<open>get_dihedral_B\<close>\<close>

definition get_dihedral_B :: "geometry \<Rightarrow> nat \<times> nat \<times> nat \<times> nat \<Rightarrow> error + real list" where
  "get_dihedral_B geom dihedral_ind =
     ebind (reshape3 (coords geom)) (\<lambda>coords.
       case dihedral_ind of (m, o', p, n) \<Rightarrow>
         ebind (getitem coords m) (\<lambda>cm.
         ebind (getitem coords o') (\<lambda>co.
         ebind (getitem coords n) (\<lambda>cn.
         ebind (getitem coords p) (\<lambda>cp.
           let u_dash = vsub cm co;
               v_dash = vsub cn cp;
               w_dash = vsub cp co;
               u_norm = vnorm u_dash;
               v_norm = vnorm v_dash;
               w_norm = vnorm w_dash
           in ebind (vdiv u_dash u_norm) (\<lambda>u.
              ebind (vdiv v_dash v_norm) (\<lambda>v.
              ebind (vdiv w_dash w_norm) (\<lambda>w.
                let phi_u = arccos (vdot u w);
                    phi_v = arccos (vdot w v);
                    uxw = vcross u w;
                    vxw = vcross v w
                in ebind (fdiv (vdot uxw vxw) (sin phi_u * sin phi_v)) (\<lambda>cos_dihed.
                  let cos_dihed = min cos_dihed 1;
                      cos_dihed = max cos_dihed (- 1);
                      dihedral = arccos cos_dihed;
                      row = replicate (length coords) vzero;
                      sin2_u = (sin phi_u)\<^sup>2;
                      sin2_v = (sin phi_v)\<^sup>2
                  in ebind (vdiv uxw (u_norm * sin2_u)) (\<lambda>first_term.
                     ebind (vdiv vxw (v_norm * sin2_v)) (\<lambda>second_term.
                     ebind (vdiv (vscale uxw (cos phi_u)) (w_norm * sin2_u)) (\<lambda>third_a.
                     ebind (vdiv (vscale vxw (cos phi_v)) (w_norm * sin2_v)) (\<lambda>third_b.
                       let third_term = vsub third_a third_b;
                           row = row[m := first_term];
                           row = row[n := vneg second_term];
                           row = row[o' := vadd (vneg first_term) third_term];
                           row = row[p := vsub second_term third_term]
                       in Inr (flatten row))))))))))))))"

text \<open>
  The same function without the three lines that clamp \<^verbatim>\<open>cos_dihed\<close> to \<open>[-1, 1]\<close>
  and take its \<^verbatim>\<open>arccos\<close>; every other line is kept.
\<close>

definition get_dihedral_B_no_clamp :: "geometry \<Rightarrow> nat \<times> nat \<times> nat \<times> nat \<Rightarrow> error + real list" where
  "get_dihedral_B_no_clamp geom dihedral_ind =
     ebind (reshape3 (coords geom)) (\<lambda>coords.
       case dihedral_ind of (m, o', p, n) \<Rightarrow>
         ebind (getitem coords m) (\<lambda>cm.
         ebind (getitem coords o') (\<lambda>co.
         ebind (getitem coords n) (\<lambda>cn.
         ebind (getitem coords p) (\<lambda>cp.
           let u_dash = vsub cm co;
               v_dash = vsub cn cp;
               w_dash = vsub cp co;
               u_norm = vnorm u_dash;
               v_norm = vnorm v_dash;
               w_norm = vnorm w_dash
           in ebind (vdiv u_dash u_norm) (\<lambda>u.
              ebind (vdiv v_dash v_norm) (\<lambda>v.
              ebind (vdiv w_dash w_norm) (\<lambda>w.
                let phi_u = arccos (vdot u w);
                    phi_v = arccos (vdot w v);
                    uxw = vcross u w;
                    vxw = vcross v w
                in ebind (fdiv (vdot uxw vxw) (sin phi_u * sin phi_v)) (\<lambda>cos_dihed.
                  let row = replicate (length coords) vzero;
                      sin2_u = (sin phi_u)\<^sup>2;
                      sin2_v = (sin phi_v)\<^sup>2
                  in ebind (vdiv uxw (u_norm * sin2_u)) (\<lambda>first_term.
                     ebind (vdiv vxw (v_norm * sin2_v)) (\<lambda>second_term.
                     ebind (vdiv (vscale uxw (cos phi_u)) (w_norm * sin2_u)) (\<lambda>third_a.
                     ebind (vdiv (vscale vxw (cos phi_v)) (w_norm * sin2_v)) (\<lambda>third_b.
                       let third_term = vsub third_a third_b;
                           row = row[m := first_term];
                           row = row[n := vneg second_term];
                           row = row[o' := vadd (vneg first_term) third_term];
                           row = row[p := vsub second_term third_term]
                       in Inr (flatten row))))))))))))))"

subsection \<open>Bond detection\<close>

text \<open>
  \<^verbatim>\<open>str.lower\<close> on the letters of an element symbol. A \<^typ>\<open>char\<close> is a byte, and only
  the ASCII capitals have a lower-case form here.
\<close>

definition lower_char :: "char \<Rightarrow> char" where
  "lower_char c =
     (let k = (of_char c :: nat) in if 65 \<le> k \<and> k \<le> 90 then char_of (k + 32) else c)"

definition lower :: "string \<Rightarrow> string" where
  "lower s = map lower_char s"

text \<open>\<^verbatim>\<open>itertools.combinations(xs, 2)\<close>\<close>

fun combinations2 :: "'a list \<Rightarrow> ('a \<times> 'a) list" where
  "combinations2 [] = []"
| "combinations2 (x # xs) = map (Pair x) xs @ combinations2 xs"

text \<open>
  \<^verbatim>\<open>scipy.spatial.distance.pdist\<close>: the Euclidean distances of all pairs of rows, in the
  order of \<^verbatim>\<open>itertools.combinations\<close>.
\<close>

definition pdist :: "vec3 list \<Rightarrow> real list" where
  "pdist X = map (\<lambda>(a, b). vnorm (vsub a b)) (combinations2 X)"

text \<open>
  The table \<^verbatim>\<open>COVALENT_RADII\<close> lives in another module; it is a parameter of the model.
  \<^verbatim>\<open>CR[atom]\<close> raises KeyError for a symbol that is not a key.
\<close>

type_synonym radii = "string \<rightharpoonup> real"

definition lookup :: "radii \<Rightarrow> string \<Rightarrow> error + real" where
  "lookup CR k = (case CR k of None \<Rightarrow> Inl (KeyError k) | Some r \<Rightarrow> Inr r)"

text \<open>The loop of \<^verbatim>\<open>get_bond_indices\<close> that fills \<^verbatim>\<open>cov_rad_sums\<close>.\<close>

fun cov_rad_sums :: "radii \<Rightarrow> geometry \<Rightarrow> real \<Rightarrow> (nat \<times> nat) list \<Rightarrow> error + real list" where
  "cov_rad_sums CR geom factor [] = Inr []"
| "cov_rad_sums CR geom factor ((i, j) # atom_indices) =
     ebind (getitem (atoms geom) i) (\<lambda>a1.
     ebind (getitem (atoms geom) j) (\<lambda>a2.
       let atom1 = lower a1;
           atom2 = lower a2
       in ebind (lookup CR atom1) (\<lambda>cov_rad1.
          ebind (lookup CR atom2) (\<lambda>cov_rad2.
            let cov_rad_sum = factor * (cov_rad1 + cov_rad2)
            in ebind (cov_rad_sums CR geom factor atom_indices) (\<lambda>rest.
                 Inr (cov_rad_sum # rest))))))"

subsection \<open>Fragments\<close>

text \<open>
  The inner loop of \<^verbatim>\<open>make_fragments\<close>, \<^verbatim>\<open>for fragment in fragments\<close>, for one bond.
  The list grows while the loop runs over it, and the loop reaches what it appended:
  \<open>seen\<close> holds the fragments already visited, the third argument those still to visit.
\<close>

function merge_bond :: "nat \<times> nat \<Rightarrow> nat set list \<Rightarrow> nat set list \<Rightarrow> nat set list" where
  "merge_bond bi seen [] = seen"
| "merge_bond bi seen (fragment # rest) =
     (let bi_set = {fst bi, snd bi}
      in if bi_set \<inter> fragment \<noteq> {}
         then merge_bond bi (seen @ [fragment \<union> bi_set]) rest
         else merge_bond bi (seen @ [fragment]) (rest @ [bi_set]))"
  by pat_completeness auto
termination
  by (relation "measure (\<lambda>(bi, seen, todo).
        2 * length (filter (\<lambda>f. {fst bi, snd bi} \<inter> f = {}) todo) + length todo)") auto

text \<open>
  \<^verbatim>\<open>make_fragments\<close>. The Python function prints the list \<^verbatim>\<open>fragments\<close> and returns
  nothing; the model returns the list it prints. \<^verbatim>\<open>pop(0)\<close> raises IndexError on an
  empty list.
\<close>

definition make_fragments :: "geometry \<Rightarrow> (nat \<times> nat) list \<Rightarrow> error + nat set list" where
  "make_fragments geom bond_indices =
     (case bond_indices of
        [] \<Rightarrow> Inl IndexError
      | first # bond_indices_list \<Rightarrow>
          (let first_fragment = {fst first, snd first};
               fragments = [first_fragment]
           in Inr (fold (\<lambda>bi fragments. merge_bond bi [] fragments) bond_indices_list fragments)))"

text \<open>\<^verbatim>\<open>get_bond_indices\<close>\<close>

definition get_bond_indices :: "radii \<Rightarrow> geometry \<Rightarrow> real \<Rightarrow> error + (nat \<times> nat) list" where
  "get_bond_indices CR geom factor =
     ebind (reshape3 (coords geom)) (\<lambda>coords.
       let cdm = pdist coords;
           atom_indices = combinations2 [0 ..< length coords]
       in ebind (cov_rad_sums CR geom factor atom_indices) (\<lambda>cov_rad_sums.
            let bond_flags = map2 (\<lambda>d s. d \<le> s) cdm cov_rad_sums;
                bond_indices = map fst (filter snd (zip atom_indices bond_flags))
            in ebind (make_fragments geom bond_indices) (\<lambda>_. Inr bond_indices)))"

subsection \<open>Angles\<close>

text \<open>
  Python does not fix the order in which a set is iterated. Where that order reaches the
  result, the model takes it as a parameter: \<open>iter_atoms S\<close> is the order in which the
  set \<open>S\<close> of atom indices is iterated, \<open>iter_bonds B\<close> that of a set of bonds.
\<close>

text \<open>\<^verbatim>\<open>sort_by_central\<close>\<close>

definition sort_by_central ::
  "(nat set \<Rightarrow> nat list) \<Rightarrow> nat set \<Rightarrow> nat set \<Rightarrow> error + ((nat \<times> nat \<times> nat) \<times> nat)" where
  "sort_by_central iter_atoms set1 set2 =
     (let central_set = set1 \<inter> set2;
          union = set1 \<union> set2
      in if card central_set \<noteq> 1 then Inl AssertionError
         else (case iter_atoms (union - central_set) of
                 [terminal1, terminal2] \<Rightarrow>
                   (case iter_atoms central_set of
                      [central] \<Rightarrow> Inr ((terminal1, central, terminal2), central)
                    | _ \<Rightarrow> Inl ValueError)
               | _ \<Rightarrow> Inl ValueError))"

text \<open>The loop of \<^verbatim>\<open>get_bending_indices\<close> over the pairs of bonds.\<close>

fun bending_loop ::
  "(nat set \<Rightarrow> nat list) \<Rightarrow> (nat set \<times> nat set) list \<Rightarrow> error + (nat \<times> nat \<times> nat) list" where
  "bending_loop iter_atoms [] = Inr []"
| "bending_loop iter_atoms ((bond_set1, bond_set2) # pairs) =
     (let union = bond_set1 \<union> bond_set2
      in if card union = 3
         then ebind (sort_by_central iter_atoms bond_set1 bond_set2) (\<lambda>(as_tpl, _).
              ebind (bending_loop iter_atoms pairs) (\<lambda>bending_indices.
                Inr (as_tpl # bending_indices)))
         else bending_loop iter_atoms pairs)"

text \<open>\<^verbatim>\<open>{frozenset(bi) for bi in bond_indices}\<close>\<close>

definition frozensets :: "(nat \<times> nat) list \<Rightarrow> nat set set" where
  "frozensets bond_indices = (\<lambda>bi. {fst bi, snd bi}) ` set bond_indices"

text \<open>\<^verbatim>\<open>get_bending_indices\<close>\<close>

definition get_bending_indices ::
  "(nat set set \<Rightarrow> nat set list) \<Rightarrow> (nat set \<Rightarrow> nat list) \<Rightarrow> (nat \<times> nat) list
     \<Rightarrow> error + (nat \<times> nat \<times> nat) list" where
  "get_bending_indices iter_bonds iter_atoms bond_indices =
     (let bond_sets = frozensets bond_indices
      in bending_loop iter_atoms (combinations2 (iter_bonds bond_sets)))"

subsection \<open>Dihedrals\<close>

text \<open>\<^verbatim>\<open>(x,) = S\<close>: the one element of \<open>S\<close>, a ValueError when there is none or more.\<close>

definition unpack1 :: "nat set \<Rightarrow> error + nat" where
  "unpack1 S = (case sorted_list_of_set S of [x] \<Rightarrow> Inr x | _ \<Rightarrow> Inl ValueError)"

text \<open>\<^verbatim>\<open>xs.index(x)\<close>: the first position of \<open>x\<close>, a ValueError when it does not occur.\<close>

fun list_index :: "nat list \<Rightarrow> nat \<Rightarrow> error + nat" where
  "list_index [] x = Inl ValueError"
| "list_index (y # ys) x = (if y = x then Inr 0 else ebind (list_index ys x) (\<lambda>k. Inr (Suc k)))"

type_synonym quad = "nat \<times> nat \<times> nat \<times> nat"

fun quad_set :: "quad \<Rightarrow> nat set" where
  "quad_set (a, b, c, d) = {a, b, c, d}"

text \<open>
  The loop of \<^verbatim>\<open>get_dihedral_indices\<close> over \<^verbatim>\<open>itertools.product(bond_inds, bend_inds)\<close>,
  with its two accumulators.
\<close>

fun dihedral_loop ::
  "((nat \<times> nat) \<times> (nat \<times> nat \<times> nat)) list \<Rightarrow> quad list \<Rightarrow> nat set list \<Rightarrow> error + quad list" where
  "dihedral_loop [] dihedral_inds dihedral_sets = Inr dihedral_inds"
| "dihedral_loop (((b0, b1), (e0, e1, e2)) # rest) dihedral_inds dihedral_sets =
     (let central = e1;
          bes = {e0, e2};
          bois = {b0, b1}
      in if card (bes \<inter> bois) = 1 \<and> central \<notin> bois
         then ebind (unpack1 ({b0, b1} \<inter> {e0, e1, e2})) (\<lambda>intersect.
              ebind (list_index [b0, b1] intersect) (\<lambda>intersect_ind.
                let term_ind = 1 - intersect_ind
                in ebind (getitem [b0, b1] term_ind) (\<lambda>terminal.
                     let dihedral_ind = (if intersect = e0 then (terminal, e0, e1, e2)
                                         else (e0, e1, e2, terminal));
                         dihedral_set = quad_set dihedral_ind
                     in if dihedral_set \<notin> set dihedral_sets
                        then dihedral_loop rest (dihedral_inds @ [dihedral_ind])
                               (dihedral_sets @ [dihedral_set])
                        else dihedral_loop rest dihedral_inds dihedral_sets)))
         else dihedral_loop rest dihedral_inds dihedral_sets)"

text \<open>\<^verbatim>\<open>get_dihedral_indices\<close>\<close>

definition get_dihedral_indices ::
  "(nat \<times> nat) list \<Rightarrow> (nat \<times> nat \<times> nat) list \<Rightarrow> error + quad list" where
  "get_dihedral_indices bond_inds bend_inds =
     dihedral_loop (List.product bond_inds bend_inds) [] []"

subsection \<open>The B-matrix\<close>

text \<open>
  A row of the matrix. Where a builder divides by zero, numpy's row still has its \<open>3N\<close>
  entries, some of them \<open>nan\<close> or \<open>inf\<close>, and \<^verbatim>\<open>get_B_mat\<close> stacks it like any other
  row. The model keeps such a row with its length, the only thing it can say about it.
\<close>

datatype matrix_row = Row "real list" | NonFiniteRow nat

fun row_length :: "matrix_row \<Rightarrow> nat" where
  "row_length (Row row) = length row"
| "row_length (NonFiniteRow k) = k"

text \<open>
  The result of a builder as a row of the matrix: an exception of the builder is an
  exception of \<^verbatim>\<open>get_B_mat\<close>, a division by zero is not.
\<close>

definition as_row :: "geometry \<Rightarrow> error + real list \<Rightarrow> error + matrix_row" where
  "as_row geom result =
     (case result of
        Inr row \<Rightarrow> Inr (Row row)
      | Inl NonFinite \<Rightarrow> Inr (NonFiniteRow (length (coords geom)))
      | Inl e \<Rightarrow> Inl e)"

text \<open>
  \<^verbatim>\<open>get_B_mat\<close> with \<^verbatim>\<open>save=None\<close>, its default: nothing is written to a file. The
  matrix is the list of its rows.
\<close>

definition get_B_mat ::
  "(nat set set \<Rightarrow> nat set list) \<Rightarrow> (nat set \<Rightarrow> nat list) \<Rightarrow> radii \<Rightarrow> geometry
     \<Rightarrow> error + matrix_row list" where
  "get_B_mat iter_bonds iter_atoms CR geom =
     ebind (get_bond_indices CR geom (13 / 10)) (\<lambda>bond_inds.
     ebind (get_bending_indices iter_bonds iter_atoms bond_inds) (\<lambda>bend_inds.
     ebind (get_dihedral_indices bond_inds bend_inds) (\<lambda>dihedral_inds.
     ebind (emap (\<lambda>ind. as_row geom (get_bond_B geom ind)) bond_inds) (\<lambda>bond_rows.
     ebind (emap (\<lambda>ind. as_row geom (get_angle_B geom ind)) bend_inds) (\<lambda>bend_rows.
     ebind (emap (\<lambda>ind. as_row geom (get_dihedral_B geom ind)) dihedral_inds) (\<lambda>dihed_rows.
       Inr (bond_rows @ bend_rows @ dihed_rows)))))))"

subsection \<open>Words for the properties of the row builders\<close>



subsection \<open>Words for the properties of the angle generator\<close>


text \<open>
  The triple \<open>(t1, c, t2)\<close> is an angle of the two bonds \<open>S1\<close> and \<open>S2\<close>: the atom \<open>c\<close> in
  the middle is the one atom that the bonds share, and the outer atoms \<open>t1\<close> and \<open>t2\<close>
  are the two atoms that they do not share.
\<close>

definition angle_of :: "nat set \<times> nat set \<Rightarrow> nat \<times> nat \<times> nat \<Rightarrow> bool" where
  "angle_of pair angle =
     (case pair of (S1, S2) \<Rightarrow> case angle of (t1, c, t2) \<Rightarrow>
        S1 \<inter> S2 = {c} \<and> (S1 \<union> S2) - {c} = {t1, t2} \<and> t1 \<noteq> t2)"

subsection \<open>Example inputs\<close>

text \<open>A small radius table, in units in which hydrogen has the radius one half.\<close>

definition radii_example :: radii where
  "radii_example = [''h'' \<mapsto> 1 / 2, ''o'' \<mapsto> 1]"

text \<open>A pair of hydrogen atoms and a chain of three, far from each other.\<close>

definition chain5 :: geometry where
  "chain5 = \<lparr>atoms = [''H'', ''H'', ''H'', ''H'', ''H''],
             coords = [0, 0, 0, 1, 0, 0, 10, 0, 0, 11, 0, 0, 12, 0, 0]\<rparr>"

text \<open>Two hydrogen atoms too far apart for a bond.\<close>

definition far2 :: geometry where
  "far2 = \<lparr>atoms = [''H'', ''H''], coords = [0, 0, 0, 10, 0, 0]\<rparr>"

text \<open>A hydrogen atom next to an atom whose symbol is not in the table, and that atom alone.\<close>

definition h_xx :: geometry where
  "h_xx = \<lparr>atoms = [''H'', ''Xx''], coords = [0, 0, 0, 1, 0, 0]\<rparr>"

definition lone_xx :: geometry where
  "lone_xx = \<lparr>atoms = [''Xx''], coords = [0, 0, 0]\<rparr>"

text \<open>
  Hydrogen peroxide with its atoms in the order H, H, O, O: a planar chain
  \<open>H0 - O2 - O3 - H1\<close> with two right angles.
\<close>

definition hooh :: geometry where
  "hooh = \<lparr>atoms = [''H'', ''H'', ''O'', ''O''],
            coords = [0, 1, 0, 2, 1, 0, 0, 0, 0, 2, 0, 0]\<rparr>"


text \<open>Four hydrogen atoms on a straight line, one unit apart.\<close>

definition lin4 :: geometry where
  "lin4 = \<lparr>atoms = [''H'', ''H'', ''H'', ''H''],
            coords = [0, 0, 0, 1, 0, 0, 2, 0, 0, 3, 0, 0]\<rparr>"

section \<open>Properties\<close>

subsection \<open>Results, vectors and flat rows\<close>

lemma ebind_Inr: "ebind m f = Inr y \<longleftrightarrow> (\<exists>x. m = Inr x \<and> f x = Inr y)"
  by (cases m) (auto simp: ebind_def)

lemma ebind_Inl: "ebind m f = Inl e \<longleftrightarrow> m = Inl e \<or> (\<exists>x. m = Inr x \<and> f x = Inl e)"
  by (cases m) (auto simp: ebind_def)

lemma getitem_Inr: "getitem xs i = Inr x \<longleftrightarrow> i < length xs \<and> x = xs ! i"
  by (auto simp: getitem_def)

lemma reshape3_length: "reshape3 cs = Inr vs \<Longrightarrow> length cs = 3 * length vs"
  by (induction cs arbitrary: vs rule: reshape3.induct) (auto simp: ebind_def split: sum.splits)

lemma length_flatten: "length (flatten vs) = 3 * length vs"
  by (induction vs rule: flatten.induct) auto

lemma block_flatten: "k < length vs \<Longrightarrow> block (flatten vs) k = vs ! k"
proof (induction vs arbitrary: k rule: flatten.induct)
  case 1
  then show ?case by simp
next
  case (2 x y z vs)
  show ?case
  proof (cases k)
    case 0
    then show ?thesis by (simp add: block_def)
  next
    case (Suc k')
    with 2 have "block (flatten vs) k' = vs ! k'" by simp
    then show ?thesis using Suc by (simp add: block_def)
  qed
qed

lemma vnorm_zero_iff: "vnorm v = 0 \<longleftrightarrow> v = vzero"
  by (cases v) (auto simp: vzero_def add_nonneg_eq_0_iff)


lemma vsub_zero_iff: "vsub a b = vzero \<longleftrightarrow> a = b"
  by (cases a; cases b) (auto simp: vzero_def)








text \<open>A vector divided by its norm is a unit vector.\<close>

lemma vnorm_vdiv:
  assumes "vnorm v \<noteq> 0" "vdiv v (vnorm v) = Inr u"
  shows "vnorm u = 1"
proof -
  obtain a b c where v: "v = (a, b, c)" by (cases v)
  define s where "s = vnorm v"
  have s2: "s\<^sup>2 = a\<^sup>2 + b\<^sup>2 + c\<^sup>2" by (simp add: s_def v)
  have spos: "s \<noteq> 0" using assms(1) by (simp add: s_def)
  have u: "u = (a / s, b / s, c / s)" using assms by (auto simp: v s_def)
  have "(a / s)\<^sup>2 + (b / s)\<^sup>2 + (c / s)\<^sup>2 = (a\<^sup>2 + b\<^sup>2 + c\<^sup>2) / s\<^sup>2"
    by (simp add: power_divide add_divide_distrib)
  also have "\<dots> = s\<^sup>2 / s\<^sup>2" by (simp add: s2)
  also have "\<dots> = 1" using spos by simp
  finally show ?thesis by (simp add: u)
qed

subsection \<open>The bond row\<close>

text \<open>
  C6. Let the geometry have \<open>N\<close> atoms, and let the atoms \<open>n\<close> and \<open>m\<close> of the bond
  \<open>(n, m)\<close> be at different positions. Then \<^verbatim>\<open>get_bond_B\<close> returns a row of length \<open>3N\<close>.
  Its block at atom \<open>m\<close> is \<open>u\<close>, the vector from \<open>n\<close> to \<open>m\<close> divided by its length, a unit
  vector; its block at atom \<open>n\<close> is \<open>-u\<close>; the block of every other atom is zero.
\<close>

theorem get_bond_B_unit_blocks:
  assumes "reshape3 (coords geom) = Inr cs"
    and "n < length cs" and "m < length cs" and "cs ! m \<noteq> cs ! n"
  shows "\<exists>row u. get_bond_B geom (n, m) = Inr row
           \<and> length row = 3 * length cs
           \<and> vdiv (vsub (cs ! m) (cs ! n)) (vnorm (vsub (cs ! m) (cs ! n))) = Inr u
           \<and> vnorm u = 1
           \<and> block row m = u
           \<and> block row n = vneg u
           \<and> (\<forall>k < length cs. k \<noteq> m \<and> k \<noteq> n \<longrightarrow> block row k = vzero)"
proof -
  define bond where "bond = vsub (cs ! m) (cs ! n)"
  have nz: "vnorm bond \<noteq> 0"
    using assms(4) by (simp add: bond_def vnorm_zero_iff vsub_zero_iff)
  then obtain u where u: "vdiv bond (vnorm bond) = Inr u"
    by (cases bond) auto
  have un: "vnorm u = 1" using vnorm_vdiv [OF nz u] .
  have mn: "m \<noteq> n" using assms(4) by auto
  define row where "row = (replicate (length cs) vzero)[m := vscale u 1, n := vscale u (- 1)]"
  have res: "get_bond_B geom (n, m) = Inr (flatten row)"
    using assms(1-3) u
    by (simp add: get_bond_B_def ebind_def getitem_def Let_def row_def bond_def)
  have s1: "vscale u 1 = u" by (cases u) simp
  have s2: "vscale u (- 1) = vneg u" by (cases u) simp
  have bm: "block (flatten row) m = u"
    using assms(2,3) mn by (simp add: block_flatten row_def s1)
  have bn: "block (flatten row) n = vneg u"
    using assms(2,3) mn by (simp add: block_flatten row_def s2)
  have bk: "\<forall>k < length cs. k \<noteq> m \<and> k \<noteq> n \<longrightarrow> block (flatten row) k = vzero"
    by (simp add: block_flatten row_def)
  have len: "length (flatten row) = 3 * length cs"
    by (simp add: length_flatten row_def)
  show ?thesis
    using res len u un bm bn bk unfolding bond_def by blast
qed

text \<open>Two atoms one unit apart on the x axis.\<close>

theorem get_bond_B_unit_blocks_witness:
  "\<exists>row u. get_bond_B \<lparr>atoms = [''H'', ''H''], coords = [0, 0, 0, 1, 0, 0]\<rparr> (0, 1) = Inr row
      \<and> length row = 3 * length [(0, 0, 0), (1, 0, 0) :: vec3]
      \<and> vdiv (vsub ([(0, 0, 0), (1, 0, 0)] ! 1) ([(0, 0, 0), (1, 0, 0)] ! 0))
           (vnorm (vsub ([(0, 0, 0), (1, 0, 0)] ! 1) ([(0, 0, 0), (1, 0, 0)] ! 0))) = Inr u
      \<and> vnorm u = 1
      \<and> block row 1 = u
      \<and> block row 0 = vneg u
      \<and> (\<forall>k < length [(0, 0, 0), (1, 0, 0) :: vec3]. k \<noteq> 1 \<and> k \<noteq> 0 \<longrightarrow> block row k = vzero)"
  using get_bond_B_unit_blocks
    [of "\<lparr>atoms = [''H'', ''H''], coords = [0, 0, 0, 1, 0, 0]\<rparr>" "[(0, 0, 0), (1, 0, 0)]" 0 1]
  by (simp add: ebind_def)

subsection \<open>Translational invariance of the angle and dihedral rows\<close>


lemma not_are_parallel_orth: "vdot u v = 0 \<Longrightarrow> \<not> are_parallel u v (1 / 1000000)"
  using pi_ge_two by (simp add: are_parallel_def)





















lemma hooh_reshape: "reshape3 (coords hooh) = Inr [(0, 1, 0), (2, 1, 0), (0, 0, 0), (2, 0, 0)]"
  by (simp add: hooh_def ebind_def)


subsection \<open>The dihedral row does not depend on the dihedral angle\<close>

text \<open>
  C10. \<^verbatim>\<open>get_dihedral_B\<close> computes the dihedral angle but never reads it: without the
  clamping of \<^verbatim>\<open>cos_dihed\<close> to \<open>[-1, 1]\<close> and the \<^verbatim>\<open>arccos\<close> after it, the function
  returns the same result for every geometry and every quadruple.
\<close>

theorem get_dihedral_B_no_clamp_eq:
  "get_dihedral_B_no_clamp geom dihedral_ind = get_dihedral_B geom dihedral_ind"
  by (simp add: get_dihedral_B_no_clamp_def get_dihedral_B_def Let_def)

subsection \<open>Bond detection\<close>

lemma lookup_Inr: "lookup CR k = Inr r \<longleftrightarrow> CR k = Some r"
  by (auto simp: lookup_def split: option.splits)

lemma combinations2_map:
  "combinations2 (map f xs) = map (\<lambda>(a, b). (f a, f b)) (combinations2 xs)"
  by (induction xs) auto

lemma set_combinations2_sorted:
  "sorted_wrt (<) xs \<Longrightarrow>
     set (combinations2 xs) = {(x, y). x \<in> set xs \<and> y \<in> set xs \<and> x < (y :: nat)}"
  by (induction xs) auto

lemma set_combinations2_upt:
  "(i, j) \<in> set (combinations2 [0 ..< N]) \<longleftrightarrow> i < j \<and> j < N"
  by (auto simp: set_combinations2_sorted)

text \<open>The condensed distance matrix, entry by entry.\<close>

lemma pdist_upt:
  "pdist cs = map (\<lambda>(i, j). vnorm (vsub (cs ! i) (cs ! j))) (combinations2 [0 ..< length cs])"
proof -
  have "combinations2 cs = combinations2 (map ((!) cs) [0 ..< length cs])"
    by (simp add: map_nth)
  also have "\<dots> = map (\<lambda>(i, j). (cs ! i, cs ! j)) (combinations2 [0 ..< length cs])"
    by (rule combinations2_map)
  finally show ?thesis
    by (simp add: pdist_def case_prod_unfold comp_def)
qed

lemma cov_rad_sums_Inr:
  assumes "cov_rad_sums CR geom factor ps = Inr rsums"
  shows "rsums = map (\<lambda>(i, j). factor * (the (CR (lower (atoms geom ! i)))
                                      + the (CR (lower (atoms geom ! j))))) ps
         \<and> (\<forall>(i, j) \<in> set ps. CR (lower (atoms geom ! i)) \<noteq> None
                               \<and> CR (lower (atoms geom ! j)) \<noteq> None)"
  using assms
proof (induction ps arbitrary: rsums)
  case Nil
  then show ?case by simp
next
  case (Cons p ps)
  obtain i j where p: "p = (i, j)" by (cases p)
  from Cons.prems obtain r1 r2 rest where
    r: "CR (lower (atoms geom ! i)) = Some r1" "CR (lower (atoms geom ! j)) = Some r2" and
    rest: "cov_rad_sums CR geom factor ps = Inr rest" and
    rsums: "rsums = factor * (r1 + r2) # rest"
    unfolding p by (auto simp: ebind_Inr getitem_Inr lookup_Inr Let_def)
  from Cons.IH [OF rest] r rsums show ?case by (simp add: p)
qed

lemma filter_flags:
  "map fst (filter snd (zip ps (map2 (\<lambda>d s. d \<le> s) (map f ps) (map g ps))))
     = filter (\<lambda>p. f p \<le> g p) ps"
  by (induction ps) auto

text \<open>What \<^verbatim>\<open>get_bond_indices\<close> returns, when it returns.\<close>

lemma get_bond_indices_Inr:
  assumes "get_bond_indices CR geom factor = Inr bonds" and "reshape3 (coords geom) = Inr cs"
  shows "bonds = filter (\<lambda>(i, j). vnorm (vsub (cs ! i) (cs ! j))
                     \<le> factor * (the (CR (lower (atoms geom ! i)))
                                  + the (CR (lower (atoms geom ! j)))))
                   (combinations2 [0 ..< length cs])"
    and "\<forall>(i, j) \<in> set (combinations2 [0 ..< length cs]).
            CR (lower (atoms geom ! i)) \<noteq> None \<and> CR (lower (atoms geom ! j)) \<noteq> None"
proof -
  from assms obtain rsums where
    rsums: "cov_rad_sums CR geom factor (combinations2 [0 ..< length cs]) = Inr rsums" and
    bonds: "bonds = map fst (filter snd (zip (combinations2 [0 ..< length cs])
                      (map2 (\<lambda>d s. d \<le> s) (pdist cs) rsums)))"
    by (auto simp: get_bond_indices_def ebind_Inr Let_def)
  note c = cov_rad_sums_Inr [OF rsums]
  show "bonds = filter (\<lambda>(i, j). vnorm (vsub (cs ! i) (cs ! j))
                     \<le> factor * (the (CR (lower (atoms geom ! i)))
                                  + the (CR (lower (atoms geom ! j)))))
                   (combinations2 [0 ..< length cs])"
    unfolding bonds pdist_upt using c
    by (simp only: filter_flags) (simp add: case_prod_unfold)
  show "\<forall>(i, j) \<in> set (combinations2 [0 ..< length cs]).
            CR (lower (atoms geom ! i)) \<noteq> None \<and> CR (lower (atoms geom ! j)) \<noteq> None"
    using c by simp
qed

text \<open>
  For a geometry whose atoms all have a radius, \<^verbatim>\<open>get_bond_indices\<close> in closed form:
  the bonds are the pairs within the threshold, and an empty bond list is an IndexError.
\<close>

lemma cov_rad_sums_total:
  assumes "\<forall>(i, j) \<in> set ps. i < length (atoms geom) \<and> j < length (atoms geom)
              \<and> CR (lower (atoms geom ! i)) \<noteq> None \<and> CR (lower (atoms geom ! j)) \<noteq> None"
  shows "\<exists>rsums. cov_rad_sums CR geom factor ps = Inr rsums"
  using assms
proof (induction ps)
  case Nil
  then show ?case by simp
next
  case (Cons p ps)
  obtain i j where p: "p = (i, j)" by (cases p)
  from Cons obtain rest where "cov_rad_sums CR geom factor ps = Inr rest" by auto
  moreover obtain r1 r2 where
    "CR (lower (atoms geom ! i)) = Some r1" "CR (lower (atoms geom ! j)) = Some r2"
    using Cons.prems by (auto simp: p)
  moreover have "i < length (atoms geom)" "j < length (atoms geom)"
    using Cons.prems by (auto simp: p)
  ultimately show ?case
    by (simp add: p getitem_def ebind_def lookup_def Let_def)
qed

lemma make_fragments_Inr_iff: "(\<exists>fr. make_fragments geom bonds = Inr fr) \<longleftrightarrow> bonds \<noteq> []"
  by (cases bonds) (simp_all add: make_fragments_def Let_def)

lemma get_bond_indices_closed:
  assumes "reshape3 (coords geom) = Inr cs" and "length cs \<le> length (atoms geom)"
    and "\<forall>i < length cs. CR (lower (atoms geom ! i)) \<noteq> None"
  shows "get_bond_indices CR geom factor =
           (let bonds = filter (\<lambda>(i, j). vnorm (vsub (cs ! i) (cs ! j))
                                 \<le> factor * (the (CR (lower (atoms geom ! i)))
                                              + the (CR (lower (atoms geom ! j)))))
                          (combinations2 [0 ..< length cs])
            in if bonds = [] then Inl IndexError else Inr bonds)"
proof -
  let ?ps = "combinations2 [0 ..< length cs]"
  have "\<forall>(i, j) \<in> set ?ps. i < length (atoms geom) \<and> j < length (atoms geom)
              \<and> CR (lower (atoms geom ! i)) \<noteq> None \<and> CR (lower (atoms geom ! j)) \<noteq> None"
    using assms(2,3) by (auto simp: set_combinations2_upt)
  from cov_rad_sums_total [OF this] obtain rsums where
    rs: "cov_rad_sums CR geom factor ?ps = Inr rsums" by blast
  have rsums: "rsums = map (\<lambda>(i, j). factor * (the (CR (lower (atoms geom ! i)))
                                      + the (CR (lower (atoms geom ! j))))) ?ps"
    using cov_rad_sums_Inr [OF rs] by simp
  have flt: "map fst (filter snd (zip ?ps (map2 (\<lambda>d s. d \<le> s) (pdist cs) rsums)))
          = filter (\<lambda>(i, j). vnorm (vsub (cs ! i) (cs ! j))
                                 \<le> factor * (the (CR (lower (atoms geom ! i)))
                                              + the (CR (lower (atoms geom ! j))))) ?ps"
    unfolding rsums pdist_upt by (simp only: filter_flags) (simp add: case_prod_unfold)
  show ?thesis
    using assms(1) rs
    by (simp add: get_bond_indices_def ebind_def Let_def flt make_fragments_def
          split: list.splits)
qed

text \<open>
  C1. Let the geometry have \<open>N\<close> atoms, a symbol for each of them, and let the
  lower-cased symbol of atom \<open>i\<close> have the radius \<open>radius i\<close> in the table. For every
  scale factor, \<^verbatim>\<open>get_bond_indices\<close> finds the list \<open>bonds\<close> of the pairs of atoms
  whose Euclidean distance is at most the factor times the sum of their radii: every pair
  in \<open>bonds\<close> is ascending, \<open>i < j < N\<close>, and for all atoms \<open>i < j < N\<close> the pair
  \<open>(i, j)\<close> is in \<open>bonds\<close> if and only if the distance of the two atoms is at most
  \<open>factor \<times> (radius i + radius j)\<close>. The function returns this list, so a pair
  \<open>i < j < N\<close> is in a list that the function returns if and only if the two atoms are
  within the threshold. It returns a list exactly when some pair of atoms is within the
  threshold; without such a pair the list is empty and the call ends with the IndexError
  of \<^verbatim>\<open>make_fragments\<close>.
\<close>

theorem get_bond_indices_iff:
  assumes "reshape3 (coords geom) = Inr cs" and "length cs \<le> length (atoms geom)"
    and "\<forall>i < length cs. CR (lower (atoms geom ! i)) = Some (radius i)"
  shows "\<exists>bonds.
           get_bond_indices CR geom factor = (if bonds = [] then Inl IndexError else Inr bonds)
         \<and> bonds = filter (\<lambda>(i, j). vnorm (vsub (cs ! i) (cs ! j)) \<le> factor * (radius i + radius j))
                      (combinations2 [0 ..< length cs])
         \<and> (\<forall>(i, j) \<in> set bonds. i < j \<and> j < length cs)
         \<and> (\<forall>i j. i < j \<and> j < length cs \<longrightarrow>
               ((i, j) \<in> set bonds
                  \<longleftrightarrow> vnorm (vsub (cs ! i) (cs ! j)) \<le> factor * (radius i + radius j)))
         \<and> (\<forall>i j. i < j \<and> j < length cs \<longrightarrow>
               ((\<exists>returned. get_bond_indices CR geom factor = Inr returned
                                \<and> (i, j) \<in> set returned)
                  \<longleftrightarrow> vnorm (vsub (cs ! i) (cs ! j)) \<le> factor * (radius i + radius j)))
         \<and> ((\<exists>returned. get_bond_indices CR geom factor = Inr returned)
               \<longleftrightarrow> (\<exists>i j. i < j \<and> j < length cs
                      \<and> vnorm (vsub (cs ! i) (cs ! j)) \<le> factor * (radius i + radius j)))"
proof -
  let ?ps = "combinations2 [0 ..< length cs]"
  define bonds where
    "bonds = filter (\<lambda>(i, j). vnorm (vsub (cs ! i) (cs ! j)) \<le> factor * (radius i + radius j)) ?ps"
  have known: "\<forall>i < length cs. CR (lower (atoms geom ! i)) \<noteq> None"
    using assms(3) by simp
  have same: "filter (\<lambda>(i, j). vnorm (vsub (cs ! i) (cs ! j))
                        \<le> factor * (the (CR (lower (atoms geom ! i)))
                                     + the (CR (lower (atoms geom ! j))))) ?ps = bonds"
    unfolding bonds_def
    by (rule filter_cong) (use assms(3) in \<open>auto simp: set_combinations2_upt\<close>)
  have res: "get_bond_indices CR geom factor = (if bonds = [] then Inl IndexError else Inr bonds)"
    using get_bond_indices_closed [OF assms(1,2) known, of factor] same by (simp add: Let_def)
  have asc: "\<forall>(i, j) \<in> set bonds. i < j \<and> j < length cs"
    unfolding bonds_def by (auto simp: set_combinations2_upt)
  have iff: "\<forall>i j. i < j \<and> j < length cs \<longrightarrow>
               ((i, j) \<in> set bonds
                  \<longleftrightarrow> vnorm (vsub (cs ! i) (cs ! j)) \<le> factor * (radius i + radius j))"
    unfolding bonds_def by (simp add: set_combinations2_upt)
  have cls: "\<forall>i j. i < j \<and> j < length cs \<longrightarrow>
               ((\<exists>returned. get_bond_indices CR geom factor = Inr returned
                                \<and> (i, j) \<in> set returned)
                  \<longleftrightarrow> vnorm (vsub (cs ! i) (cs ! j)) \<le> factor * (radius i + radius j))"
  proof (intro allI impI iffI)
    fix i j
    assume ij: "i < j \<and> j < length cs"
      and "\<exists>returned. get_bond_indices CR geom factor = Inr returned \<and> (i, j) \<in> set returned"
    then obtain returned where
      r: "get_bond_indices CR geom factor = Inr returned" "(i, j) \<in> set returned"
      by (elim exE conjE)
    have "returned = bonds" using r(1) unfolding res by (simp split: if_splits)
    then show "vnorm (vsub (cs ! i) (cs ! j)) \<le> factor * (radius i + radius j)"
      using r(2) iff ij by simp
  next
    fix i j
    assume ij: "i < j \<and> j < length cs"
      and d: "vnorm (vsub (cs ! i) (cs ! j)) \<le> factor * (radius i + radius j)"
    have m: "(i, j) \<in> set bonds" using iff ij d by simp
    then have "bonds \<noteq> []" by auto
    then have "get_bond_indices CR geom factor = Inr bonds" unfolding res by simp
    with m show "\<exists>returned. get_bond_indices CR geom factor = Inr returned
                    \<and> (i, j) \<in> set returned"
      by (intro exI [of _ bonds] conjI)
  qed
  have ne: "bonds \<noteq> [] \<longleftrightarrow> (\<exists>i j. i < j \<and> j < length cs
                      \<and> vnorm (vsub (cs ! i) (cs ! j)) \<le> factor * (radius i + radius j))"
  proof
    assume "bonds \<noteq> []"
    then obtain p ps where "bonds = p # ps" by (cases bonds) simp_all
    moreover obtain i j where "p = (i, j)" by (cases p)
    ultimately have ij: "(i, j) \<in> set bonds" by simp
    then have 1: "i < j \<and> j < length cs"
      unfolding bonds_def by (simp add: set_combinations2_upt)
    have 2: "vnorm (vsub (cs ! i) (cs ! j)) \<le> factor * (radius i + radius j)"
      using ij unfolding bonds_def by simp
    show "\<exists>i j. i < j \<and> j < length cs
                      \<and> vnorm (vsub (cs ! i) (cs ! j)) \<le> factor * (radius i + radius j)"
      using 1 2 by (intro exI [of _ i] exI [of _ j]) simp
  next
    assume "\<exists>i j. i < j \<and> j < length cs
                      \<and> vnorm (vsub (cs ! i) (cs ! j)) \<le> factor * (radius i + radius j)"
    then obtain i j where "i < j" "j < length cs"
      "vnorm (vsub (cs ! i) (cs ! j)) \<le> factor * (radius i + radius j)" by (elim exE conjE)
    then have "(i, j) \<in> set bonds"
      unfolding bonds_def by (simp add: set_combinations2_upt)
    then show "bonds \<noteq> []" by auto
  qed
  have ret: "(\<exists>returned. get_bond_indices CR geom factor = Inr returned)
               \<longleftrightarrow> (\<exists>i j. i < j \<and> j < length cs
                      \<and> vnorm (vsub (cs ! i) (cs ! j)) \<le> factor * (radius i + radius j))"
    unfolding ne [symmetric] res by simp
  have "get_bond_indices CR geom factor = (if bonds = [] then Inl IndexError else Inr bonds)
         \<and> bonds = filter (\<lambda>(i, j). vnorm (vsub (cs ! i) (cs ! j)) \<le> factor * (radius i + radius j)) ?ps
         \<and> (\<forall>(i, j) \<in> set bonds. i < j \<and> j < length cs)
         \<and> (\<forall>i j. i < j \<and> j < length cs \<longrightarrow>
               ((i, j) \<in> set bonds
                  \<longleftrightarrow> vnorm (vsub (cs ! i) (cs ! j)) \<le> factor * (radius i + radius j)))
         \<and> (\<forall>i j. i < j \<and> j < length cs \<longrightarrow>
               ((\<exists>returned. get_bond_indices CR geom factor = Inr returned
                                \<and> (i, j) \<in> set returned)
                  \<longleftrightarrow> vnorm (vsub (cs ! i) (cs ! j)) \<le> factor * (radius i + radius j)))
         \<and> ((\<exists>returned. get_bond_indices CR geom factor = Inr returned)
               \<longleftrightarrow> (\<exists>i j. i < j \<and> j < length cs
                      \<and> vnorm (vsub (cs ! i) (cs ! j)) \<le> factor * (radius i + radius j)))"
    using res bonds_def asc iff cls ret by (iprover intro: conjI)
  then show ?thesis by (rule exI [of _ bonds])
qed

text \<open>The example inputs, evaluated.\<close>

lemma lower_H: "lower ''H'' = ''h''"
  by code_simp

lemma lower_Xx: "lower ''Xx'' = ''xx''"
  by code_simp

lemma sqrt_le_iff_sq: "0 \<le> s \<Longrightarrow> sqrt x \<le> s \<longleftrightarrow> x \<le> s\<^sup>2"
  by (metis real_sqrt_le_iff real_sqrt_abs abs_of_nonneg)

lemma upt5: "[0 ..< 5] = [0, 1, 2, 3, 4 :: nat]"
  by (simp add: upt_rec)

lemma chain5_reshape:
  "reshape3 (coords chain5) = Inr [(0, 0, 0), (1, 0, 0), (10, 0, 0), (11, 0, 0), (12, 0, 0)]"
  by (simp add: chain5_def ebind_def)

lemma chain5_bonds:
  "get_bond_indices radii_example chain5 (13 / 10) = Inr [(0, 1), (2, 3), (3, 4)]"
  by (simp add: get_bond_indices_def chain5_reshape ebind_def pdist_def upt5 Let_def)
     (simp add: chain5_def radii_example_def getitem_def lookup_def lower_H ebind_def
        sqrt_le_iff_sq power2_eq_square make_fragments_def Let_def)

lemma lower_O: "lower ''O'' = ''o''"
  by code_simp

lemma sqrt5_bound: "\<not> sqrt 5 * 20 \<le> 39"
  using sqrt_le_iff_sq [of "39 / 20" 5] by (simp add: power2_eq_square)

lemma upt4: "[0 ..< 4] = [0, 1, 2, 3 :: nat]"
  by (simp add: upt_rec)

lemma hooh_bonds: "get_bond_indices radii_example hooh (13 / 10) = Inr [(0, 2), (1, 3), (2, 3)]"
  by (simp add: get_bond_indices_def hooh_reshape ebind_def pdist_def upt4 Let_def)
     (simp add: hooh_def radii_example_def getitem_def lookup_def lower_H lower_O ebind_def
        sqrt_le_iff_sq sqrt5_bound power2_eq_square make_fragments_def Let_def)

text \<open>The chain of five hydrogen atoms: three bonds, and every radius is one half.\<close>

lemma chain5_radii:
  "\<forall>i < length [(0, 0, 0), (1, 0, 0), (10, 0, 0), (11, 0, 0), (12, 0, 0) :: vec3].
      radii_example (lower (atoms chain5 ! i)) = Some ((\<lambda>i. 1 / 2) i)"
proof (intro allI impI)
  fix i :: nat
  assume "i < length [(0, 0, 0), (1, 0, 0), (10, 0, 0), (11, 0, 0), (12, 0, 0) :: vec3]"
  then have "i < 5" by simp
  moreover have "atoms chain5 = replicate 5 ''H''"
    by (simp add: chain5_def numeral_eq_Suc)
  ultimately have "atoms chain5 ! i = ''H''" by simp
  then show "radii_example (lower (atoms chain5 ! i)) = Some ((\<lambda>i. 1 / 2) i)"
    by (simp add: lower_H radii_example_def)
qed

theorem get_bond_indices_iff_witness:
  "get_bond_indices radii_example chain5 (13 / 10) = Inr [(0, 1), (2, 3), (3, 4)]
   \<and> (\<exists>bonds.
           get_bond_indices radii_example chain5 (13 / 10)
             = (if bonds = [] then Inl IndexError else Inr bonds)
         \<and> bonds = filter (\<lambda>(i, j).
                vnorm (vsub ([(0, 0, 0), (1, 0, 0), (10, 0, 0), (11, 0, 0), (12, 0, 0)] ! i)
                            ([(0, 0, 0), (1, 0, 0), (10, 0, 0), (11, 0, 0), (12, 0, 0)] ! j))
                  \<le> 13 / 10 * (1 / 2 + 1 / 2))
              (combinations2 [0 ..< length [(0, 0, 0), (1, 0, 0), (10, 0, 0), (11, 0, 0), (12, 0, 0) :: vec3]])
         \<and> (\<forall>(i, j) \<in> set bonds.
               i < j \<and> j < length [(0, 0, 0), (1, 0, 0), (10, 0, 0), (11, 0, 0), (12, 0, 0) :: vec3])
         \<and> (\<forall>i j. i < j \<and> j < length [(0, 0, 0), (1, 0, 0), (10, 0, 0), (11, 0, 0), (12, 0, 0) :: vec3]
               \<longrightarrow> ((i, j) \<in> set bonds
                  \<longleftrightarrow> vnorm (vsub ([(0, 0, 0), (1, 0, 0), (10, 0, 0), (11, 0, 0), (12, 0, 0)] ! i)
                                  ([(0, 0, 0), (1, 0, 0), (10, 0, 0), (11, 0, 0), (12, 0, 0)] ! j))
                        \<le> 13 / 10 * (1 / 2 + 1 / 2)))
         \<and> (\<forall>i j. i < j \<and> j < length [(0, 0, 0), (1, 0, 0), (10, 0, 0), (11, 0, 0), (12, 0, 0) :: vec3]
               \<longrightarrow> ((\<exists>returned. get_bond_indices radii_example chain5 (13 / 10) = Inr returned
                                  \<and> (i, j) \<in> set returned)
                  \<longleftrightarrow> vnorm (vsub ([(0, 0, 0), (1, 0, 0), (10, 0, 0), (11, 0, 0), (12, 0, 0)] ! i)
                                  ([(0, 0, 0), (1, 0, 0), (10, 0, 0), (11, 0, 0), (12, 0, 0)] ! j))
                        \<le> 13 / 10 * (1 / 2 + 1 / 2)))
         \<and> ((\<exists>returned. get_bond_indices radii_example chain5 (13 / 10) = Inr returned)
               \<longleftrightarrow> (\<exists>i j. i < j
                      \<and> j < length [(0, 0, 0), (1, 0, 0), (10, 0, 0), (11, 0, 0), (12, 0, 0) :: vec3]
                      \<and> vnorm (vsub ([(0, 0, 0), (1, 0, 0), (10, 0, 0), (11, 0, 0), (12, 0, 0)] ! i)
                                     ([(0, 0, 0), (1, 0, 0), (10, 0, 0), (11, 0, 0), (12, 0, 0)] ! j))
                          \<le> 13 / 10 * (1 / 2 + 1 / 2))))"
proof -
  have len: "length [(0, 0, 0), (1, 0, 0), (10, 0, 0), (11, 0, 0), (12, 0, 0) :: vec3]
               \<le> length (atoms chain5)"
    by (simp add: chain5_def)
  note t = get_bond_indices_iff [OF chain5_reshape len chain5_radii, of "13 / 10"]
  show ?thesis using chain5_bonds t by (rule conjI)
qed

subsection \<open>An element without a radius\<close>

lemma cov_rad_sums_KeyError:
  assumes "\<forall>(i, j) \<in> set ps. i < length (atoms geom) \<and> j < length (atoms geom)"
    and "\<exists>(i, j) \<in> set ps. CR (lower (atoms geom ! i)) = None \<or> CR (lower (atoms geom ! j)) = None"
  shows "\<exists>k. CR k = None \<and> cov_rad_sums CR geom factor ps = Inl (KeyError k)"
  using assms
proof (induction ps)
  case Nil
  then show ?case by simp
next
  case (Cons p ps)
  obtain i j where p: "p = (i, j)" by (cases p)
  have lt: "i < length (atoms geom)" "j < length (atoms geom)"
    using Cons.prems(1) by (auto simp: p)
  show ?case
  proof (cases "CR (lower (atoms geom ! i))")
    case None
    then show ?thesis using lt by (auto simp: p getitem_def ebind_def lookup_def Let_def)
  next
    case (Some r1)
    note r1 = this
    show ?thesis
    proof (cases "CR (lower (atoms geom ! j))")
      case None
      then show ?thesis using lt r1 by (auto simp: p getitem_def ebind_def lookup_def Let_def)
    next
      case (Some r2)
      have "\<exists>(i, j) \<in> set ps. CR (lower (atoms geom ! i)) = None
                               \<or> CR (lower (atoms geom ! j)) = None"
        using Cons.prems(2) r1 Some by (auto simp: p)
      moreover have "\<forall>(i, j) \<in> set ps. i < length (atoms geom) \<and> j < length (atoms geom)"
        using Cons.prems(1) by simp
      ultimately obtain k where "CR k = None" "cov_rad_sums CR geom factor ps = Inl (KeyError k)"
        using Cons.IH by blast
      then show ?thesis
        using lt r1 Some by (auto simp: p getitem_def ebind_def lookup_def Let_def)
    qed
  qed
qed

lemma get_B_mat_Inl:
  "get_bond_indices CR geom (13 / 10) = Inl e \<Longrightarrow> get_B_mat iter_bonds iter_atoms CR geom = Inl e"
  by (simp add: get_B_mat_def ebind_def)

text \<open>With two atoms or more, every atom is in some pair, and its radius is looked up.\<close>

lemma get_bond_indices_KeyError:
  assumes "reshape3 (coords geom) = Inr cs" and "length cs \<le> length (atoms geom)"
    and "2 \<le> length cs" and "i < length cs" and "CR (lower (atoms geom ! i)) = None"
  shows "\<exists>k. CR k = None \<and> get_bond_indices CR geom factor = Inl (KeyError k)"
proof -
  let ?ps = "combinations2 [0 ..< length cs]"
  have rng: "\<forall>(i, j) \<in> set ?ps. i < length (atoms geom) \<and> j < length (atoms geom)"
    using assms(2) by (auto simp: set_combinations2_upt)
  have "\<exists>(a, b) \<in> set ?ps. CR (lower (atoms geom ! a)) = None
                                 \<or> CR (lower (atoms geom ! b)) = None"
  proof (cases "i = 0")
    case True
    then have "(i, 1) \<in> set ?ps" using assms(3) by (simp add: set_combinations2_upt)
    then show ?thesis using assms(5) by blast
  next
    case False
    then have "(0, i) \<in> set ?ps" using assms(4) by (simp add: set_combinations2_upt)
    then show ?thesis using assms(5) by blast
  qed
  from cov_rad_sums_KeyError [OF rng this]
  obtain k where "CR k = None" "cov_rad_sums CR geom factor ?ps = Inl (KeyError k)"
    by blast
  then show ?thesis
    using assms(1) by (auto simp: get_bond_indices_def ebind_def Let_def)
qed

text \<open>
  C7 fails for a geometry of one atom. The radii are looked up pair by pair, and one atom
  makes no pair: the symbol \<open>Xx\<close> has no radius, yet no KeyError is raised. (The call ends
  with the IndexError of \<^verbatim>\<open>make_fragments\<close> on an empty bond list.)
\<close>

theorem unknown_element_one_atom_counterexample:
  "radii_example (lower (atoms lone_xx ! 0)) = None
   \<and> get_bond_indices radii_example lone_xx (13 / 10) = Inl IndexError"
  by (simp add: get_bond_indices_def ebind_def pdist_def Let_def lone_xx_def
        radii_example_def lower_Xx make_fragments_def)

text \<open>
  C7, amended. Let the geometry have at least two atoms, and let the lower-cased symbol of
  one of them have no entry in the radius table. Then \<^verbatim>\<open>get_bond_indices\<close> raises, for
  every scale factor, a KeyError for a symbol that is not in the table, and \<^verbatim>\<open>get_B_mat\<close>
  ends with such an error as well: it stops in bond detection, before any row of the
  B-matrix is built.
\<close>

theorem unknown_element_KeyError:
  assumes "reshape3 (coords geom) = Inr cs" and "length cs \<le> length (atoms geom)"
    and "2 \<le> length cs" and "i < length cs" and "CR (lower (atoms geom ! i)) = None"
  shows "(\<exists>k. CR k = None \<and> get_bond_indices CR geom factor = Inl (KeyError k))
       \<and> (\<exists>k. CR k = None \<and> get_B_mat iter_bonds iter_atoms CR geom = Inl (KeyError k))"
  using get_bond_indices_KeyError [where CR = CR, OF assms] get_B_mat_Inl by blast

text \<open>A hydrogen atom next to an atom with the symbol \<open>Xx\<close>.\<close>

theorem unknown_element_KeyError_witness:
  "(\<exists>k. radii_example k = None
       \<and> get_bond_indices radii_example h_xx (13 / 10) = Inl (KeyError k))
   \<and> (\<exists>k. radii_example k = None
       \<and> get_B_mat (\<lambda>B. []) sorted_list_of_set radii_example h_xx = Inl (KeyError k))"
proof -
  have 1: "reshape3 (coords h_xx) = Inr [(0, 0, 0), (1, 0, 0)]"
    by (simp add: h_xx_def ebind_def)
  have 2: "length [(0, 0, 0), (1, 0, 0) :: vec3] \<le> length (atoms h_xx)"
    by (simp add: h_xx_def)
  have 3: "2 \<le> length [(0, 0, 0), (1, 0, 0) :: vec3]" by simp
  have 4: "1 < length [(0, 0, 0), (1, 0, 0) :: vec3]" by simp
  have 5: "radii_example (lower (atoms h_xx ! 1)) = None"
    by (simp add: h_xx_def radii_example_def lower_Xx)
  show ?thesis by (rule unknown_element_KeyError [where CR = radii_example, OF 1 2 3 4 5])
qed

subsection \<open>Fragments\<close>

lemma hooh_fragments:
  "make_fragments hooh [(0, 2), (1, 3), (2, 3)] = Inr [{0, 2, 3}, {1, 2, 3}]"
  by (simp add: make_fragments_def Let_def insert_commute)

text \<open>
  C3 fails on the code: the fragments need not be disjoint. In the hydrogen peroxide
  chain the bonds are \<open>(0, 2)\<close>, \<open>(1, 3)\<close> and \<open>(2, 3)\<close>. The first two start a fragment
  each; the third touches both and is merged into both, but the two fragments are never
  merged with each other. The atoms \<open>2\<close> and \<open>3\<close> end up in two fragments.
\<close>

theorem make_fragments_overlap_counterexample:
  "get_bond_indices radii_example hooh (13 / 10) = Inr [(0, 2), (1, 3), (2, 3)]
   \<and> make_fragments hooh [(0, 2), (1, 3), (2, 3)] = Inr [{0, 2, 3}, {1, 2, 3}]
   \<and> {0, 2, 3} \<inter> {1, 2, 3} \<noteq> ({} :: nat set)"
  using hooh_bonds hooh_fragments by simp

text \<open>
  The fragments overlap in a second way. A bond that touches no earlier fragment is
  appended once for every fragment it does not touch, and a bond that is merged into one
  fragment is still appended for each of the others: in the pair and the chain of three,
  the bond \<open>(3, 4)\<close> is merged into the second fragment and appended as well.
\<close>

lemma chain5_fragments:
  "make_fragments chain5 [(0, 1), (2, 3), (3, 4)] = Inr [{0, 1}, {2, 3, 4}, {3, 4}]"
  by (simp add: make_fragments_def Let_def insert_commute)

text \<open>
  The inner loop in closed form: every fragment that the bond touches takes the bond in,
  and the bond is appended once for every fragment that it does not touch.
\<close>

lemma merge_bond_eq:
  "merge_bond bi seen todo =
     seen @ map (\<lambda>f. if {fst bi, snd bi} \<inter> f \<noteq> {} then f \<union> {fst bi, snd bi} else f) todo
          @ replicate (length (filter (\<lambda>f. {fst bi, snd bi} \<inter> f = {}) todo)) {fst bi, snd bi}"
proof (induction bi seen todo rule: merge_bond.induct)
  case (1 bi seen)
  then show ?case by simp
next
  case (2 bi seen fragment rest)
  show ?case
  proof (cases "{fst bi, snd bi} \<inter> fragment \<noteq> {}")
    case True
    then show ?thesis using 2(1) [OF refl True] by (simp add: Let_def)
  next
    case False
    then show ?thesis using 2(2) [OF refl False]
      by (simp add: Let_def replicate_append_same)
  qed
qed

text \<open>A fragment never loses an atom, and a bond is in some fragment once it is processed.\<close>

lemma merge_bond_grows:
  assumes "f \<in> set fragments"
  shows "\<exists>g \<in> set (merge_bond bi [] fragments). f \<subseteq> g"
proof (cases "{fst bi, snd bi} \<inter> f \<noteq> {}")
  case True
  then have "f \<union> {fst bi, snd bi} \<in> set (merge_bond bi [] fragments)"
    using assms by (auto simp: merge_bond_eq)
  then show ?thesis by blast
next
  case False
  then have "f \<in> set (merge_bond bi [] fragments)"
    using assms by (auto simp: merge_bond_eq)
  then show ?thesis by blast
qed

lemma merge_bond_covers:
  assumes "fragments \<noteq> []"
  shows "\<exists>g \<in> set (merge_bond bi [] fragments). {fst bi, snd bi} \<subseteq> g"
proof (cases "\<exists>f \<in> set fragments. {fst bi, snd bi} \<inter> f \<noteq> {}")
  case True
  then obtain f where "f \<in> set fragments" "{fst bi, snd bi} \<inter> f \<noteq> {}" by blast
  then have "f \<union> {fst bi, snd bi} \<in> set (merge_bond bi [] fragments)"
    by (auto simp: merge_bond_eq)
  then show ?thesis by blast
next
  case False
  then have "filter (\<lambda>f. {fst bi, snd bi} \<inter> f = {}) fragments = fragments"
    by (auto simp: filter_id_conv)
  then have "{fst bi, snd bi} \<in> set (merge_bond bi [] fragments)"
    using assms by (simp add: merge_bond_eq)
  then show ?thesis by blast
qed

lemma merge_bond_nonempty: "fragments \<noteq> [] \<Longrightarrow> merge_bond bi [] fragments \<noteq> []"
  by (simp add: merge_bond_eq)

lemma fold_merge_bond:
  assumes "fragments \<noteq> []"
    and "\<forall>b \<in> S. \<exists>g \<in> set fragments. {fst b, snd b} \<subseteq> g"
  shows "\<forall>b \<in> S \<union> set bonds.
           \<exists>g \<in> set (fold (\<lambda>bi fragments. merge_bond bi [] fragments) bonds fragments).
             {fst b, snd b} \<subseteq> g"
  using assms
proof (induction bonds arbitrary: fragments S)
  case Nil
  then show ?case by simp
next
  case (Cons bi bonds)
  let ?fr = "merge_bond bi [] fragments"
  have ne: "?fr \<noteq> []" using Cons.prems(1) by (rule merge_bond_nonempty)
  have "\<forall>b \<in> insert bi S. \<exists>g \<in> set ?fr. {fst b, snd b} \<subseteq> g"
  proof
    fix b assume "b \<in> insert bi S"
    then show "\<exists>g \<in> set ?fr. {fst b, snd b} \<subseteq> g"
    proof
      assume "b = bi"
      then show ?thesis using merge_bond_covers [OF Cons.prems(1)] by simp
    next
      assume "b \<in> S"
      then obtain f where "f \<in> set fragments" "{fst b, snd b} \<subseteq> f"
        using Cons.prems(2) by blast
      then show ?thesis using merge_bond_grows [of f fragments bi] by (meson subset_trans)
    qed
  qed
  from Cons.IH [OF ne this] show ?case by simp
qed

text \<open>
  C3, amended. When \<^verbatim>\<open>make_fragments\<close> has processed a bond list that is not empty, the
  two atoms of every bond of the list lie in one fragment.
\<close>

theorem make_fragments_bond_in_fragment:
  assumes "make_fragments geom bond_indices = Inr fragments" and "(i, j) \<in> set bond_indices"
  shows "\<exists>g \<in> set fragments. i \<in> g \<and> j \<in> g"
proof -
  from assms(1) obtain first rest where
    b: "bond_indices = first # rest" and
    f: "fragments = fold (\<lambda>bi fragments. merge_bond bi [] fragments) rest [{fst first, snd first}]"
    by (auto simp: make_fragments_def Let_def split: list.splits)
  have "\<forall>b \<in> {first} \<union> set rest. \<exists>g \<in> set fragments. {fst b, snd b} \<subseteq> g"
    unfolding f by (rule fold_merge_bond) simp_all
  then show ?thesis using assms(2) b by fastforce
qed

theorem make_fragments_bond_in_fragment_witness:
  "make_fragments hooh [(0, 2), (1, 3), (2, 3)] = Inr [{0, 2, 3}, {1, 2, 3}]
   \<and> (\<exists>g \<in> set [{0, 2, 3}, {1, 2, 3}]. (2 :: nat) \<in> g \<and> (3 :: nat) \<in> g)"
proof -
  have "(2, 3) \<in> set [(0, 2), (1, 3), (2, 3 :: nat)]" by simp
  from make_fragments_bond_in_fragment [OF hooh_fragments this] hooh_fragments
  show ?thesis by blast
qed

subsection \<open>Isolated atoms\<close>

text \<open>Without any pair of atoms within the threshold, bond detection raises.\<close>

lemma get_bond_indices_no_bond:
  assumes "reshape3 (coords geom) = Inr cs" and "length cs \<le> length (atoms geom)"
    and "\<forall>i < length cs. CR (lower (atoms geom ! i)) \<noteq> None"
    and "\<forall>i j. i < j \<and> j < length cs \<longrightarrow>
           \<not> vnorm (vsub (cs ! i) (cs ! j))
               \<le> factor * (the (CR (lower (atoms geom ! i))) + the (CR (lower (atoms geom ! j))))"
  shows "get_bond_indices CR geom factor = Inl IndexError"
proof -
  have "filter (\<lambda>(i, j). vnorm (vsub (cs ! i) (cs ! j))
                                 \<le> factor * (the (CR (lower (atoms geom ! i)))
                                              + the (CR (lower (atoms geom ! j)))))
                          (combinations2 [0 ..< length cs]) = []"
    using assms(4) by (auto simp: filter_empty_conv set_combinations2_upt)
  then show ?thesis
    using get_bond_indices_closed [OF assms(1-3)] by (simp add: Let_def)
qed

lemma far2_bonds: "get_bond_indices radii_example far2 (13 / 10) = Inl IndexError"
  by (simp add: get_bond_indices_def far2_def ebind_def pdist_def upt_rec Let_def
        radii_example_def getitem_def lookup_def lower_H
        sqrt_le_iff_sq power2_eq_square make_fragments_def)

text \<open>
  C8 fails on the code where no atom has a partner. The two hydrogen atoms are ten units
  apart, the threshold is \<open>1.3\<close>: there is no bond, \<^verbatim>\<open>make_fragments\<close> pops from an empty
  list, and neither \<^verbatim>\<open>get_bond_indices\<close> nor \<^verbatim>\<open>get_B_mat\<close> returns anything.
\<close>

theorem isolated_atoms_IndexError:
  "\<not> vnorm (vsub (0, 0, 0) (10, 0, 0)) \<le> 13 / 10 * (1 / 2 + 1 / 2)
   \<and> get_bond_indices radii_example far2 (13 / 10) = Inl IndexError
   \<and> get_B_mat (\<lambda>B. []) sorted_list_of_set radii_example far2 = Inl IndexError"
  using far2_bonds get_B_mat_Inl [OF far2_bonds]
  by (simp add: sqrt_le_iff_sq power2_eq_square)

subsection \<open>Dihedrals with different atom sets\<close>

lemma unpack1_singleton: "unpack1 {x} = Inr x"
  by (simp add: unpack1_def)

text \<open>Behind the test of \<^verbatim>\<open>get_dihedral_indices\<close>, no unpacking and no lookup fails.\<close>

lemma dihedral_step_defined:
  assumes "card ({e0, e2} \<inter> {b0, b1}) = 1" and "e1 \<notin> {b0, b1}"
  shows "\<exists>intersect intersect_ind terminal.
           unpack1 ({b0, b1} \<inter> {e0, e1, e2}) = Inr intersect
           \<and> list_index [b0, b1] intersect = Inr intersect_ind
           \<and> getitem [b0, b1] (1 - intersect_ind) = Inr terminal"
proof -
  from assms(1) obtain x where x: "{e0, e2} \<inter> {b0, b1} = {x}"
    by (auto simp: card_1_singleton_iff)
  have "{b0, b1} \<inter> {e0, e1, e2} = {e0, e2} \<inter> {b0, b1}"
    using assms(2) by auto
  then have u: "unpack1 ({b0, b1} \<inter> {e0, e1, e2}) = Inr x"
    using x by (simp add: unpack1_singleton)
  have xin: "x = b0 \<or> x = b1" using x by blast
  have "\<exists>k. list_index [b0, b1] x = Inr k \<and> k \<le> 1"
  proof (cases "b0 = x")
    case True
    then show ?thesis by simp
  next
    case False
    then have "b1 = x" using xin by simp
    then show ?thesis using False by (simp add: ebind_def)
  qed
  then obtain k where k: "list_index [b0, b1] x = Inr k" "k \<le> 1" by blast
  then have "getitem [b0, b1] (1 - k) = Inr ([b0, b1] ! (1 - k))"
    by (simp add: getitem_def)
  with u k show ?thesis by blast
qed

text \<open>
  The invariant of the loop: \<^verbatim>\<open>dihedral_sets\<close> holds the atom sets of
  \<^verbatim>\<open>dihedral_inds\<close>, in the same order, and no set twice.
\<close>

lemma dihedral_loop_distinct:
  assumes "dihedral_sets = map quad_set dihedral_inds" and "distinct dihedral_sets"
  shows "\<exists>ds. dihedral_loop pairs dihedral_inds dihedral_sets = Inr ds
           \<and> distinct (map quad_set ds)"
  using assms
proof (induction pairs arbitrary: dihedral_inds dihedral_sets)
  case Nil
  then show ?case by simp
next
  case (Cons pair rest)
  obtain b0 b1 e0 e1 e2 where pair: "pair = ((b0, b1), (e0, e1, e2))"
    by (metis prod.exhaust)
  show ?case
  proof (cases "card ({e0, e2} \<inter> {b0, b1}) = 1 \<and> e1 \<notin> {b0, b1}")
    case False
    have "dihedral_loop (pair # rest) dihedral_inds dihedral_sets
            = dihedral_loop rest dihedral_inds dihedral_sets"
      unfolding pair by (simp only: dihedral_loop.simps Let_def False if_False)
    then show ?thesis using Cons.IH [OF Cons.prems] by simp
  next
    case True
    then obtain intersect intersect_ind terminal where
      st: "unpack1 ({b0, b1} \<inter> {e0, e1, e2}) = Inr intersect"
        "list_index [b0, b1] intersect = Inr intersect_ind"
        "getitem [b0, b1] (1 - intersect_ind) = Inr terminal"
      using dihedral_step_defined by blast
    define dihedral_ind where
      "dihedral_ind = (if intersect = e0 then (terminal, e0, e1, e2) else (e0, e1, e2, terminal))"
    have step: "dihedral_loop (pair # rest) dihedral_inds dihedral_sets
            = (if quad_set dihedral_ind \<notin> set dihedral_sets
               then dihedral_loop rest (dihedral_inds @ [dihedral_ind])
                      (dihedral_sets @ [quad_set dihedral_ind])
               else dihedral_loop rest dihedral_inds dihedral_sets)"
      unfolding pair dihedral_ind_def
      by (simp only: dihedral_loop.simps Let_def True if_True st ebind_def sum.case, simp)
    show ?thesis
    proof (cases "quad_set dihedral_ind \<notin> set dihedral_sets")
      case new: True
      have "dihedral_sets @ [quad_set dihedral_ind] = map quad_set (dihedral_inds @ [dihedral_ind])"
        using Cons.prems(1) by simp
      moreover have "distinct (dihedral_sets @ [quad_set dihedral_ind])"
        using Cons.prems(2) new by simp
      ultimately show ?thesis
        using Cons.IH step new by presburger
    next
      case old: False
      then show ?thesis using Cons.IH [OF Cons.prems] step by simp
    qed
  qed
qed

text \<open>
  C5. For every list of bonds and every list of angles, \<^verbatim>\<open>get_dihedral_indices\<close> returns
  a list of quadruples, and no two of them have the same set of four atom indices.
\<close>

theorem get_dihedral_indices_distinct_sets:
  "\<exists>ds. get_dihedral_indices bond_inds bend_inds = Inr ds \<and> distinct (map quad_set ds)"
  unfolding get_dihedral_indices_def by (rule dihedral_loop_distinct) simp_all

text \<open>
  The two end atoms of a generated dihedral are different atoms, when every bond joins
  two different atoms and so does the outer pair of every angle: the atom that the bond
  adds is not an atom of the angle.
\<close>

lemma dihedral_step_terminal:
  assumes "card ({e0, e2} \<inter> {b0, b1}) = 1" and "e1 \<notin> {b0, b1}" and "b0 \<noteq> b1"
    and "unpack1 ({b0, b1} \<inter> {e0, e1, e2}) = Inr intersect"
    and "list_index [b0, b1] intersect = Inr intersect_ind"
    and "getitem [b0, b1] (1 - intersect_ind) = Inr terminal"
  shows "(intersect = e0 \<or> intersect = e2) \<and> terminal \<notin> {e0, e1, e2}"
proof -
  from assms(1) obtain x where x: "{e0, e2} \<inter> {b0, b1} = {x}"
    by (auto simp: card_1_singleton_iff)
  have "{b0, b1} \<inter> {e0, e1, e2} = {x}"
    using assms(2) x by auto
  then have ix: "intersect = x" using assms(4) by (simp add: unpack1_singleton)
  have xin: "x \<in> {e0, e2}" "x \<in> {b0, b1}" using x by blast+
  have other: "terminal \<in> {b0, b1}" "terminal \<noteq> x"
    using assms(3,5,6) xin(2) unfolding ix
    by (auto simp: getitem_def ebind_def split: if_splits)
  have "terminal \<notin> {e0, e2}" using x other by blast
  moreover have "terminal \<noteq> e1" using other(1) assms(2) by blast
  ultimately show ?thesis using xin(1) ix by blast
qed

lemma dihedral_loop_ends:
  assumes "\<forall>((b0, b1), (e0, e1, e2)) \<in> set pairs. b0 \<noteq> b1 \<and> e0 \<noteq> e2"
    and "\<forall>(m, o', p, n) \<in> set dihedral_inds. m \<noteq> n"
    and "dihedral_loop pairs dihedral_inds dihedral_sets = Inr ds"
  shows "\<forall>(m, o', p, n) \<in> set ds. m \<noteq> n"
  using assms
proof (induction pairs arbitrary: dihedral_inds dihedral_sets)
  case Nil
  then show ?case by simp
next
  case (Cons pair rest)
  obtain b0 b1 e0 e1 e2 where pair: "pair = ((b0, b1), (e0, e1, e2))"
    by (metis prod.exhaust)
  have proper: "b0 \<noteq> b1" "e0 \<noteq> e2" using Cons.prems(1) by (auto simp: pair)
  have rest: "\<forall>((b0, b1), (e0, e1, e2)) \<in> set rest. b0 \<noteq> b1 \<and> e0 \<noteq> e2"
    using Cons.prems(1) by simp
  show ?case
  proof (cases "card ({e0, e2} \<inter> {b0, b1}) = 1 \<and> e1 \<notin> {b0, b1}")
    case False
    have "dihedral_loop (pair # rest) dihedral_inds dihedral_sets
            = dihedral_loop rest dihedral_inds dihedral_sets"
      unfolding pair by (simp only: dihedral_loop.simps Let_def False if_False)
    then show ?thesis using Cons.IH [OF rest Cons.prems(2)] Cons.prems(3) by simp
  next
    case True
    then obtain intersect intersect_ind terminal where
      st: "unpack1 ({b0, b1} \<inter> {e0, e1, e2}) = Inr intersect"
        "list_index [b0, b1] intersect = Inr intersect_ind"
        "getitem [b0, b1] (1 - intersect_ind) = Inr terminal"
      using dihedral_step_defined by blast
    define dihedral_ind where
      "dihedral_ind = (if intersect = e0 then (terminal, e0, e1, e2) else (e0, e1, e2, terminal))"
    have step: "dihedral_loop (pair # rest) dihedral_inds dihedral_sets
            = (if quad_set dihedral_ind \<notin> set dihedral_sets
               then dihedral_loop rest (dihedral_inds @ [dihedral_ind])
                      (dihedral_sets @ [quad_set dihedral_ind])
               else dihedral_loop rest dihedral_inds dihedral_sets)"
      unfolding pair dihedral_ind_def
      by (simp only: dihedral_loop.simps Let_def True if_True st ebind_def sum.case, simp)
    have "terminal \<notin> {e0, e1, e2}"
      using dihedral_step_terminal [OF _ _ proper(1) st] True by blast
    then have new: "\<forall>(m, o', p, n) \<in> set (dihedral_inds @ [dihedral_ind]). m \<noteq> n"
      using Cons.prems(2) by (auto simp: dihedral_ind_def)
    show ?thesis
    proof (cases "quad_set dihedral_ind \<notin> set dihedral_sets")
      case True
      then show ?thesis using Cons.IH [OF rest new] Cons.prems(3) step by simp
    next
      case False
      then show ?thesis using Cons.IH [OF rest Cons.prems(2)] Cons.prems(3) step by simp
    qed
  qed
qed

lemma get_dihedral_indices_ends_differ:
  assumes "\<forall>(i, j) \<in> set bond_inds. i \<noteq> j"
    and "\<forall>(t1, c, t2) \<in> set bend_inds. t1 \<noteq> t2"
    and "get_dihedral_indices bond_inds bend_inds = Inr ds"
    and "(m, o', p, n) \<in> set ds"
  shows "m \<noteq> n"
proof -
  have "\<forall>((b0, b1), (e0, e1, e2)) \<in> set (List.product bond_inds bend_inds). b0 \<noteq> b1 \<and> e0 \<noteq> e2"
    using assms(1,2) by auto
  from dihedral_loop_ends [OF this _ assms(3) [unfolded get_dihedral_indices_def]] assms(4)
  show ?thesis by auto
qed

subsection \<open>Angles from pairs of bonds\<close>

lemma combinations2_subset: "(a, b) \<in> set (combinations2 xs) \<Longrightarrow> a \<in> set xs \<and> b \<in> set xs"
  by (induction xs) auto




lemma list_of_singleton: "distinct xs \<Longrightarrow> set xs = {c} \<Longrightarrow> xs = [c]"
  by (metis distinct.simps(2) empty_iff insert_iff list.exhaust list.set_intros(1) list.set_intros(2) set_empty)

lemma list_of_card2:
  assumes "distinct xs" "set xs = T" "card T = 2"
  shows "\<exists>t1 t2. xs = [t1, t2] \<and> t1 \<noteq> t2 \<and> T = {t1, t2}"
proof -
  have "length xs = 2" using assms distinct_card by fastforce
  then obtain t1 t2 where "xs = [t1, t2]"
    by (metis (no_types, opaque_lifting) One_nat_def Suc_1 length_0_conv length_Suc_conv)
  then show ?thesis using assms by auto
qed

lemma sort_by_central_defined:
  assumes it: "\<forall>S. finite S \<longrightarrow> set (iter_atoms S) = S \<and> distinct (iter_atoms S)"
    and fin: "finite S1" "finite S2"
    and c1: "card (S1 \<inter> S2) = 1" and c3: "card (S1 \<union> S2) = 3"
  shows "\<exists>t1 c t2. sort_by_central iter_atoms S1 S2 = Inr ((t1, c, t2), c)
           \<and> S1 \<inter> S2 = {c} \<and> (S1 \<union> S2) - {c} = {t1, t2} \<and> t1 \<noteq> t2"
proof -
  from c1 obtain c where c: "S1 \<inter> S2 = {c}" by (auto simp: card_1_singleton_iff)
  have ic: "iter_atoms {c} = [c]"
    using it by (simp add: list_of_singleton)
  have "c \<in> S1 \<union> S2" using c by blast
  then have "card ((S1 \<union> S2) - {c}) = 2"
    using c3 fin by simp
  moreover have "finite ((S1 \<union> S2) - {c})" using fin by simp
  ultimately obtain t1 t2 where
    t: "iter_atoms ((S1 \<union> S2) - {c}) = [t1, t2]" "t1 \<noteq> t2" "(S1 \<union> S2) - {c} = {t1, t2}"
    using it list_of_card2 by metis
  show ?thesis
    using c c1 t ic by (simp add: sort_by_central_def Let_def)
qed

lemma bending_loop_angles:
  assumes it: "\<forall>S. finite S \<longrightarrow> set (iter_atoms S) = S \<and> distinct (iter_atoms S)"
    and ps: "\<forall>(S1, S2) \<in> set pairs. finite S1 \<and> finite S2
                \<and> (card (S1 \<union> S2) = 3 \<longrightarrow> card (S1 \<inter> S2) = 1)"
  shows "\<exists>angles. bending_loop iter_atoms pairs = Inr angles
           \<and> list_all2 angle_of (filter (\<lambda>(S1, S2). card (S1 \<union> S2) = 3) pairs) angles"
  using ps
proof (induction pairs)
  case Nil
  then show ?case by simp
next
  case (Cons pair pairs)
  obtain S1 S2 where pair: "pair = (S1, S2)" by (cases pair)
  from Cons obtain angles where
    rest: "bending_loop iter_atoms pairs = Inr angles"
      "list_all2 angle_of (filter (\<lambda>(S1, S2). card (S1 \<union> S2) = 3) pairs) angles"
    by auto
  show ?case
  proof (cases "card (S1 \<union> S2) = 3")
    case False
    then show ?thesis using rest by (simp add: pair Let_def)
  next
    case True
    then have "finite S1" "finite S2" "card (S1 \<inter> S2) = 1"
      using Cons.prems by (auto simp: pair)
    from sort_by_central_defined [OF it this True]
    obtain t1 c t2 where
      s: "sort_by_central iter_atoms S1 S2 = Inr ((t1, c, t2), c)"
        "S1 \<inter> S2 = {c}" "(S1 \<union> S2) - {c} = {t1, t2}" "t1 \<noteq> t2"
      by blast
    have "bending_loop iter_atoms (pair # pairs) = Inr ((t1, c, t2) # angles)"
      using True s(1) rest(1) by (simp add: pair Let_def ebind_def)
    moreover have "angle_of pair (t1, c, t2)"
      using s by (simp add: angle_of_def pair)
    ultimately show ?thesis
      using True rest(2) by (simp add: pair)
  qed
qed

lemma card2_pair:
  assumes "card S1 = 2" "card S2 = 2" "card (S1 \<union> S2) = 3"
  shows "card (S1 \<inter> S2) = 1"
proof -
  have "finite S1" "finite S2" using assms by (auto intro: card_ge_0_finite)
  then have "card S1 + card S2 = card (S1 \<union> S2) + card (S1 \<inter> S2)"
    by (rule card_Un_Int)
  then show ?thesis using assms by simp
qed

lemma frozensets_card:
  assumes "\<forall>(i, j) \<in> set bond_indices. i \<noteq> j" and "S \<in> frozensets bond_indices"
  shows "card S = 2"
  using assms by (auto simp: frozensets_def)




subsection \<open>The assembled matrix\<close>

text \<open>
  A builder never raises for atoms of the geometry: it returns a row, or it divides by
  zero.
\<close>

lemma ebind_Inr_apply: "ebind (Inr x) f = f x"
  by (simp add: ebind_def)

lemma ebind_row_or_NonFinite:
  assumes "m = Inl NonFinite \<or> (\<exists>x. m = Inr x)"
    and "\<And>x. f x = Inl NonFinite \<or> (\<exists>y. f x = Inr y)"
  shows "ebind m f = Inl NonFinite \<or> (\<exists>y. ebind m f = Inr y)"
  using assms(1)
proof (elim disjE exE)
  assume "m = Inl NonFinite"
  then show ?thesis by (simp add: ebind_def)
next
  fix x assume "m = Inr x"
  then show ?thesis using assms(2) [of x] by (simp add: ebind_def)
qed

lemma vdiv_row_or_NonFinite: "vdiv v s = Inl NonFinite \<or> (\<exists>y. vdiv v s = Inr y)"
  by (cases v) simp

lemma fdiv_row_or_NonFinite: "fdiv a s = Inl NonFinite \<or> (\<exists>y. fdiv a s = Inr y)"
  by (simp add: fdiv_def)

lemma Inr_row_or_NonFinite: "Inr x = Inl NonFinite \<or> (\<exists>y. Inr x = Inr y)"
  by simp

lemma get_bond_B_never_raises:
  assumes "reshape3 (coords geom) = Inr cs" and "n < length cs" and "m < length cs"
  shows "get_bond_B geom (n, m) = Inl NonFinite \<or> (\<exists>row. get_bond_B geom (n, m) = Inr row)"
  unfolding get_bond_B_def Let_def
  by (simp only: assms ebind_Inr_apply prod.case getitem_def if_True)
     (intro ebind_row_or_NonFinite vdiv_row_or_NonFinite Inr_row_or_NonFinite)

lemma get_angle_B_never_raises:
  assumes "reshape3 (coords geom) = Inr cs"
    and "m < length cs" and "o' < length cs" and "n < length cs"
  shows "get_angle_B geom (m, o', n) = Inl NonFinite
           \<or> (\<exists>row. get_angle_B geom (m, o', n) = Inr row)"
  unfolding get_angle_B_def Let_def
  by (simp only: assms ebind_Inr_apply prod.case getitem_def if_True)
     (intro ebind_row_or_NonFinite vdiv_row_or_NonFinite Inr_row_or_NonFinite)

lemma get_dihedral_B_never_raises:
  assumes "reshape3 (coords geom) = Inr cs"
    and "m < length cs" and "o' < length cs" and "p < length cs" and "n < length cs"
  shows "get_dihedral_B geom (m, o', p, n) = Inl NonFinite
           \<or> (\<exists>row. get_dihedral_B geom (m, o', p, n) = Inr row)"
  unfolding get_dihedral_B_def Let_def
  by (simp only: assms ebind_Inr_apply prod.case getitem_def if_True)
     (intro ebind_row_or_NonFinite vdiv_row_or_NonFinite fdiv_row_or_NonFinite
        Inr_row_or_NonFinite)

text \<open>Every row that a builder returns has three entries for each atom.\<close>

lemma get_bond_B_length:
  assumes "get_bond_B geom bond_ind = Inr row" and "reshape3 (coords geom) = Inr cs"
  shows "length row = 3 * length cs"
proof -
  obtain n m where "bond_ind = (n, m)" by (cases bond_ind)
  with assms show ?thesis
    by (auto simp: get_bond_B_def ebind_Inr getitem_Inr Let_def length_flatten
          simp del: vdiv.simps vsub.simps vcross.simps
          vnorm.simps vscale.simps vneg.simps vadd.simps vdot.simps)
qed

lemma get_angle_B_length:
  assumes "get_angle_B geom angle_ind = Inr row" and "reshape3 (coords geom) = Inr cs"
  shows "length row = 3 * length cs"
proof -
  obtain m o' n where "angle_ind = (m, o', n)" by (cases angle_ind)
  with assms show ?thesis
    by (auto simp: get_angle_B_def ebind_Inr getitem_Inr Let_def length_flatten
          simp del: vdiv.simps vsub.simps vcross.simps
          vnorm.simps vscale.simps vneg.simps vadd.simps vdot.simps)
qed

lemma get_dihedral_B_length:
  assumes "get_dihedral_B geom dihedral_ind = Inr row" and "reshape3 (coords geom) = Inr cs"
  shows "length row = 3 * length cs"
proof -
  obtain m o' p n where "dihedral_ind = (m, o', p, n)" by (cases dihedral_ind)
  with assms show ?thesis
    by (auto simp: get_dihedral_B_def ebind_Inr getitem_Inr Let_def length_flatten
          simp del: vdiv.simps vsub.simps vcross.simps
          vnorm.simps vscale.simps vneg.simps vadd.simps vdot.simps)
qed

text \<open>The atoms of the generated coordinates are atoms of the geometry.\<close>

lemma get_bond_indices_range:
  assumes "get_bond_indices CR geom factor = Inr bonds"
  shows "\<exists>cs. reshape3 (coords geom) = Inr cs \<and> (\<forall>(i, j) \<in> set bonds. i < j \<and> j < length cs)"
proof -
  from assms obtain cs where cs: "reshape3 (coords geom) = Inr cs"
    unfolding get_bond_indices_def ebind_Inr by blast
  have "\<forall>(i, j) \<in> set bonds. i < j \<and> j < length cs"
    unfolding get_bond_indices_Inr(1) [OF assms cs] by (auto simp: set_combinations2_upt)
  with cs show ?thesis by blast
qed

lemma get_bending_indices_range:
  assumes proper: "\<forall>(i, j) \<in> set bond_indices. i \<noteq> j \<and> i < N \<and> j < N"
    and ib: "set (iter_bonds (frozensets bond_indices)) = frozensets bond_indices"
            "distinct (iter_bonds (frozensets bond_indices))"
    and it: "\<forall>S. finite S \<longrightarrow> set (iter_atoms S) = S \<and> distinct (iter_atoms S)"
  shows "\<exists>angles. get_bending_indices iter_bonds iter_atoms bond_indices = Inr angles
           \<and> (\<forall>(t1, c, t2) \<in> set angles. t1 < N \<and> c < N \<and> t2 < N)"
proof -
  define B where "B = frozensets bond_indices"
  define xs where "xs = iter_bonds B"
  define ps where "ps = combinations2 xs"
  define qs where "qs = filter (\<lambda>(S1, S2). card (S1 \<union> S2) = 3) ps"
  have xs: "set xs = B" "distinct xs" using ib by (simp_all add: xs_def B_def)
  have proper': "\<forall>(i, j) \<in> set bond_indices. i \<noteq> j" using proper by auto
  have card2: "card S = 2" if "S \<in> B" for S
    using frozensets_card [OF proper'] that by (simp add: B_def)
  have below: "a < N" if "S \<in> B" "a \<in> S" for S a
    using that proper by (auto simp: B_def frozensets_def)
  have in_ps: "S1 \<in> B \<and> S2 \<in> B" if "(S1, S2) \<in> set ps" for S1 S2
    using that combinations2_subset xs unfolding ps_def by metis
  have ok: "\<forall>(S1, S2) \<in> set ps. finite S1 \<and> finite S2
                \<and> (card (S1 \<union> S2) = 3 \<longrightarrow> card (S1 \<inter> S2) = 1)"
  proof (clarify, intro conjI impI)
    fix S1 S2 assume p: "(S1, S2) \<in> set ps"
    then have c: "card S1 = 2" "card S2 = 2" using in_ps card2 by auto
    show "finite S1" using c by (auto intro: card_ge_0_finite)
    show "finite S2" using c by (auto intro: card_ge_0_finite)
    show "card (S1 \<inter> S2) = 1" if "card (S1 \<union> S2) = 3" using card2_pair c that by blast
  qed
  from bending_loop_angles [OF it ok] obtain angles where
    res: "bending_loop iter_atoms ps = Inr angles" and rel: "list_all2 angle_of qs angles"
    unfolding qs_def by blast
  have run: "get_bending_indices iter_bonds iter_atoms bond_indices = Inr angles"
    using res by (simp add: get_bending_indices_def Let_def ps_def xs_def B_def)
  have "t1 < N \<and> c < N \<and> t2 < N" if "(t1, c, t2) \<in> set angles" for t1 c t2
  proof -
    from that obtain k where k: "k < length angles" "angles ! k = (t1, c, t2)"
      by (auto simp: in_set_conv_nth)
    have len: "length qs = length angles" using rel by (rule list_all2_lengthD)
    have a: "angle_of (qs ! k) (t1, c, t2)"
      using list_all2_nthD2 [OF rel k(1)] k(2) by simp
    obtain S1 S2 where q: "qs ! k = (S1, S2)" by (cases "qs ! k")
    have "(S1, S2) \<in> set qs" using k(1) len q by (metis nth_mem)
    then have "(S1, S2) \<in> set ps" by (simp add: qs_def)
    then have S: "S1 \<in> B" "S2 \<in> B" using in_ps by auto
    from a have i: "S1 \<inter> S2 = {c}" and u: "(S1 \<union> S2) - {c} = {t1, t2}"
      unfolding q by (simp_all add: angle_of_def)
    have "c \<in> S1" using i by blast
    moreover have "t1 \<in> S1 \<union> S2" "t2 \<in> S1 \<union> S2" using u by blast+
    ultimately show ?thesis using below S by blast
  qed
  then have "\<forall>(t1, c, t2) \<in> set angles. t1 < N \<and> c < N \<and> t2 < N" by auto
  with run show ?thesis by blast
qed

lemma dihedral_loop_range:
  assumes "\<forall>((b0, b1), (e0, e1, e2)) \<in> set pairs. b0 < N \<and> b1 < N \<and> e0 < N \<and> e1 < N \<and> e2 < N"
    and "\<forall>(m, o', p, n) \<in> set dihedral_inds. m < N \<and> o' < N \<and> p < N \<and> n < N"
    and "dihedral_loop pairs dihedral_inds dihedral_sets = Inr ds"
  shows "\<forall>(m, o', p, n) \<in> set ds. m < N \<and> o' < N \<and> p < N \<and> n < N"
  using assms
proof (induction pairs arbitrary: dihedral_inds dihedral_sets)
  case Nil
  then show ?case by simp
next
  case (Cons pair rest)
  obtain b0 b1 e0 e1 e2 where pair: "pair = ((b0, b1), (e0, e1, e2))"
    by (metis prod.exhaust)
  have rng: "b0 < N" "b1 < N" "e0 < N" "e1 < N" "e2 < N"
    using Cons.prems(1) by (auto simp: pair)
  have rest: "\<forall>((b0, b1), (e0, e1, e2)) \<in> set rest.
                b0 < N \<and> b1 < N \<and> e0 < N \<and> e1 < N \<and> e2 < N"
    using Cons.prems(1) by simp
  show ?case
  proof (cases "card ({e0, e2} \<inter> {b0, b1}) = 1 \<and> e1 \<notin> {b0, b1}")
    case False
    have "dihedral_loop (pair # rest) dihedral_inds dihedral_sets
            = dihedral_loop rest dihedral_inds dihedral_sets"
      unfolding pair by (simp only: dihedral_loop.simps Let_def False if_False)
    then show ?thesis using Cons.IH [OF rest Cons.prems(2)] Cons.prems(3) by simp
  next
    case True
    then obtain intersect intersect_ind terminal where
      st: "unpack1 ({b0, b1} \<inter> {e0, e1, e2}) = Inr intersect"
        "list_index [b0, b1] intersect = Inr intersect_ind"
        "getitem [b0, b1] (1 - intersect_ind) = Inr terminal"
      using dihedral_step_defined by blast
    define dihedral_ind where
      "dihedral_ind = (if intersect = e0 then (terminal, e0, e1, e2) else (e0, e1, e2, terminal))"
    have step: "dihedral_loop (pair # rest) dihedral_inds dihedral_sets
            = (if quad_set dihedral_ind \<notin> set dihedral_sets
               then dihedral_loop rest (dihedral_inds @ [dihedral_ind])
                      (dihedral_sets @ [quad_set dihedral_ind])
               else dihedral_loop rest dihedral_inds dihedral_sets)"
      unfolding pair dihedral_ind_def
      by (simp only: dihedral_loop.simps Let_def True if_True st ebind_def sum.case, simp)
    have "terminal \<in> set [b0, b1]"
      using st(3) unfolding getitem_Inr by (metis nth_mem)
    then have "terminal < N" using rng by auto
    then have new: "\<forall>(m, o', p, n) \<in> set (dihedral_inds @ [dihedral_ind]).
                      m < N \<and> o' < N \<and> p < N \<and> n < N"
      using Cons.prems(2) rng by (auto simp: dihedral_ind_def)
    show ?thesis
    proof (cases "quad_set dihedral_ind \<notin> set dihedral_sets")
      case True
      then show ?thesis using Cons.IH [OF rest new] Cons.prems(3) step by simp
    next
      case False
      then show ?thesis using Cons.IH [OF rest Cons.prems(2)] Cons.prems(3) step by simp
    qed
  qed
qed

lemma get_dihedral_indices_range:
  assumes "\<forall>(i, j) \<in> set bond_inds. i < N \<and> j < N"
    and "\<forall>(t1, c, t2) \<in> set bend_inds. t1 < N \<and> c < N \<and> t2 < N"
  shows "\<exists>ds. get_dihedral_indices bond_inds bend_inds = Inr ds
           \<and> (\<forall>(m, o', p, n) \<in> set ds. m < N \<and> o' < N \<and> p < N \<and> n < N)"
proof -
  obtain ds where ds: "dihedral_loop (List.product bond_inds bend_inds) [] [] = Inr ds"
    using dihedral_loop_distinct [of "[]" "[]" "List.product bond_inds bend_inds"] by auto
  have "\<forall>((b0, b1), (e0, e1, e2)) \<in> set (List.product bond_inds bend_inds).
           b0 < N \<and> b1 < N \<and> e0 < N \<and> e1 < N \<and> e2 < N"
    using assms by auto
  from dihedral_loop_range [OF this _ ds] ds show ?thesis
    by (simp add: get_dihedral_indices_def)
qed

text \<open>A list comprehension over builders that do not raise, row by row.\<close>

lemma emap_list_all2:
  assumes "\<forall>x \<in> set xs. \<exists>y. f x = Inr y \<and> P x y"
  shows "\<exists>ys. emap f xs = Inr ys \<and> list_all2 P xs ys"
  using assms
proof (induction xs)
  case Nil
  then show ?case by simp
next
  case (Cons x xs)
  then obtain y where y: "f x = Inr y" "P x y" by auto
  from Cons obtain ys where ys: "emap f xs = Inr ys" "list_all2 P xs ys" by auto
  have "emap f (x # xs) = Inr (y # ys) \<and> list_all2 P (x # xs) (y # ys)"
    using y ys by (simp add: ebind_def)
  then show ?case by (rule exI [of _ "y # ys"])
qed

lemma list_all2_right:
  "list_all2 (\<lambda>x y. R x y \<and> Q y) xs ys
     \<Longrightarrow> list_all2 R xs ys \<and> (\<forall>y \<in> set ys. Q y) \<and> length ys = length xs"
  by (induction rule: list_all2_induct) auto

lemma as_row_result:
  assumes "reshape3 (coords geom) = Inr cs"
    and "r = Inl NonFinite \<or> (\<exists>row. r = Inr row)"
    and "\<And>row. r = Inr row \<Longrightarrow> length row = 3 * length cs"
  shows "\<exists>y. as_row geom r = Inr y
           \<and> ((case r of Inr row \<Rightarrow> y = Row row
                | Inl e \<Rightarrow> e = NonFinite \<and> y = NonFiniteRow (3 * length cs))
              \<and> row_length y = 3 * length cs)"
  using assms(2)
proof
  assume "r = Inl NonFinite"
  then show ?thesis using reshape3_length [OF assms(1)] by (simp add: as_row_def)
next
  assume "\<exists>row. r = Inr row"
  then obtain row where "r = Inr row" by blast
  then show ?thesis using assms(3) by (simp add: as_row_def)
qed

text \<open>
  C9. Let the sets be iterated in any order (each element once). When bond detection
  raises, \<^verbatim>\<open>get_B_mat\<close> raises the same error. When it returns the bonds, the index
  generators return the angles and the dihedrals, no row builder raises, and
  \<^verbatim>\<open>get_B_mat\<close> returns the matrix: the rows of the bonds, followed by the rows of the
  angles, followed by the rows of the dihedrals, each row being, at the same position of
  the list that the index generator returned, the row that the builder of its kind
  returns for the coordinate, or a row without finite entries where the builder divides
  by zero. The matrix has as many rows as there are bonds, angles and dihedrals together,
  and each row has \<open>3N\<close> entries, for the \<open>N\<close> atoms of the geometry.
\<close>

theorem get_B_mat_stack:
  assumes ib: "\<forall>bond_inds. get_bond_indices CR geom (13 / 10) = Inr bond_inds \<longrightarrow>
                 set (iter_bonds (frozensets bond_inds)) = frozensets bond_inds
                 \<and> distinct (iter_bonds (frozensets bond_inds))"
    and it: "\<forall>S. finite S \<longrightarrow> set (iter_atoms S) = S \<and> distinct (iter_atoms S)"
  shows "case get_bond_indices CR geom (13 / 10) of
           Inl e \<Rightarrow> get_B_mat iter_bonds iter_atoms CR geom = Inl e
         | Inr bond_inds \<Rightarrow>
             (\<exists>cs bend_inds dihedral_inds bond_rows bend_rows dihed_rows.
                  reshape3 (coords geom) = Inr cs
                \<and> get_bending_indices iter_bonds iter_atoms bond_inds = Inr bend_inds
                \<and> get_dihedral_indices bond_inds bend_inds = Inr dihedral_inds
                \<and> list_all2 (\<lambda>ind r. case get_bond_B geom ind of
                                 Inr row \<Rightarrow> r = Row row
                               | Inl e \<Rightarrow> e = NonFinite \<and> r = NonFiniteRow (3 * length cs))
                    bond_inds bond_rows
                \<and> list_all2 (\<lambda>ind r. case get_angle_B geom ind of
                                 Inr row \<Rightarrow> r = Row row
                               | Inl e \<Rightarrow> e = NonFinite \<and> r = NonFiniteRow (3 * length cs))
                    bend_inds bend_rows
                \<and> list_all2 (\<lambda>ind r. case get_dihedral_B geom ind of
                                 Inr row \<Rightarrow> r = Row row
                               | Inl e \<Rightarrow> e = NonFinite \<and> r = NonFiniteRow (3 * length cs))
                    dihedral_inds dihed_rows
                \<and> get_B_mat iter_bonds iter_atoms CR geom
                    = Inr (bond_rows @ bend_rows @ dihed_rows)
                \<and> length (bond_rows @ bend_rows @ dihed_rows)
                    = length bond_inds + length bend_inds + length dihedral_inds
                \<and> (\<forall>row \<in> set (bond_rows @ bend_rows @ dihed_rows).
                      row_length row = 3 * length cs))"
proof (cases "get_bond_indices CR geom (13 / 10)")
  case (Inl e)
  have "get_B_mat iter_bonds iter_atoms CR geom = Inl e"
    using Inl by (rule get_B_mat_Inl)
  then show ?thesis by (simp only: Inl sum.case)
next
  case (Inr bond_inds)
  from get_bond_indices_range [OF Inr] obtain cs where
    cs: "reshape3 (coords geom) = Inr cs" and
    bonds: "\<forall>(i, j) \<in> set bond_inds. i < j \<and> j < length cs"
    by blast
  have proper: "\<forall>(i, j) \<in> set bond_inds. i \<noteq> j \<and> i < length cs \<and> j < length cs"
    using bonds by auto
  have bonds': "\<forall>(i, j) \<in> set bond_inds. i < length cs \<and> j < length cs"
    using bonds by auto
  from ib Inr have ib': "set (iter_bonds (frozensets bond_inds)) = frozensets bond_inds"
    "distinct (iter_bonds (frozensets bond_inds))"
    by simp_all
  from get_bending_indices_range
    [where iter_bonds = iter_bonds and iter_atoms = iter_atoms and bond_indices = bond_inds
       and N = "length cs", OF proper ib' it]
  obtain bend_inds where
    be: "get_bending_indices iter_bonds iter_atoms bond_inds = Inr bend_inds" and
    bends: "\<forall>(t1, c, t2) \<in> set bend_inds. t1 < length cs \<and> c < length cs \<and> t2 < length cs"
    by blast
  from get_dihedral_indices_range
    [where bond_inds = bond_inds and bend_inds = bend_inds and N = "length cs", OF bonds' bends]
  obtain dihedral_inds where
    di: "get_dihedral_indices bond_inds bend_inds = Inr dihedral_inds" and
    diheds: "\<forall>(m, o', p, n) \<in> set dihedral_inds.
               m < length cs \<and> o' < length cs \<and> p < length cs \<and> n < length cs"
    by blast
  let ?L = "3 * length cs"
  let ?Rb = "\<lambda>ind r. case get_bond_B geom ind of
                 Inr row \<Rightarrow> r = Row row
               | Inl e \<Rightarrow> e = NonFinite \<and> r = NonFiniteRow ?L"
  let ?Ra = "\<lambda>ind r. case get_angle_B geom ind of
                 Inr row \<Rightarrow> r = Row row
               | Inl e \<Rightarrow> e = NonFinite \<and> r = NonFiniteRow ?L"
  let ?Rd = "\<lambda>ind r. case get_dihedral_B geom ind of
                 Inr row \<Rightarrow> r = Row row
               | Inl e \<Rightarrow> e = NonFinite \<and> r = NonFiniteRow ?L"
  have "\<forall>ind \<in> set bond_inds. \<exists>y. as_row geom (get_bond_B geom ind) = Inr y
           \<and> (?Rb ind y \<and> row_length y = ?L)"
  proof
    fix ind assume ind: "ind \<in> set bond_inds"
    obtain n m where nm: "ind = (n, m)" by (cases ind)
    have "n < length cs" "m < length cs" using bonds' ind unfolding nm by auto
    from as_row_result [OF cs get_bond_B_never_raises [OF cs this] get_bond_B_length [OF _ cs]]
    show "\<exists>y. as_row geom (get_bond_B geom ind) = Inr y \<and> (?Rb ind y \<and> row_length y = ?L)"
      unfolding nm .
  qed
  from emap_list_all2 [OF this] obtain bond_rows where
    r1: "emap (\<lambda>ind. as_row geom (get_bond_B geom ind)) bond_inds = Inr bond_rows" and
    a1: "list_all2 (\<lambda>ind y. ?Rb ind y \<and> row_length y = ?L) bond_inds bond_rows"
    by blast
  have "\<forall>ind \<in> set bend_inds. \<exists>y. as_row geom (get_angle_B geom ind) = Inr y
           \<and> (?Ra ind y \<and> row_length y = ?L)"
  proof
    fix ind assume ind: "ind \<in> set bend_inds"
    obtain m o' n where mon: "ind = (m, o', n)" by (cases ind)
    have "m < length cs" "o' < length cs" "n < length cs" using bends ind unfolding mon by auto
    from as_row_result [OF cs get_angle_B_never_raises [OF cs this] get_angle_B_length [OF _ cs]]
    show "\<exists>y. as_row geom (get_angle_B geom ind) = Inr y \<and> (?Ra ind y \<and> row_length y = ?L)"
      unfolding mon .
  qed
  from emap_list_all2 [OF this] obtain bend_rows where
    r2: "emap (\<lambda>ind. as_row geom (get_angle_B geom ind)) bend_inds = Inr bend_rows" and
    a2: "list_all2 (\<lambda>ind y. ?Ra ind y \<and> row_length y = ?L) bend_inds bend_rows"
    by blast
  have "\<forall>ind \<in> set dihedral_inds. \<exists>y. as_row geom (get_dihedral_B geom ind) = Inr y
           \<and> (?Rd ind y \<and> row_length y = ?L)"
  proof
    fix ind assume ind: "ind \<in> set dihedral_inds"
    obtain m o' p n where mopn: "ind = (m, o', p, n)" by (cases ind)
    have "m < length cs" "o' < length cs" "p < length cs" "n < length cs"
      using diheds ind unfolding mopn by auto
    from as_row_result [OF cs get_dihedral_B_never_raises [OF cs this]
        get_dihedral_B_length [OF _ cs]]
    show "\<exists>y. as_row geom (get_dihedral_B geom ind) = Inr y \<and> (?Rd ind y \<and> row_length y = ?L)"
      unfolding mopn .
  qed
  from emap_list_all2 [OF this] obtain dihed_rows where
    r3: "emap (\<lambda>ind. as_row geom (get_dihedral_B geom ind)) dihedral_inds = Inr dihed_rows" and
    a3: "list_all2 (\<lambda>ind y. ?Rd ind y \<and> row_length y = ?L) dihedral_inds dihed_rows"
    by blast
  note b1 = list_all2_right [OF a1] and b2 = list_all2_right [OF a2]
    and b3 = list_all2_right [OF a3]
  have run: "get_B_mat iter_bonds iter_atoms CR geom = Inr (bond_rows @ bend_rows @ dihed_rows)"
    by (simp only: get_B_mat_def Inr be di r1 r2 r3 ebind_Inr_apply)
  have len: "length (bond_rows @ bend_rows @ dihed_rows)
               = length bond_inds + length bend_inds + length dihedral_inds"
    using b1 b2 b3 by simp
  have shape: "\<forall>row \<in> set (bond_rows @ bend_rows @ dihed_rows). row_length row = ?L"
    using b1 b2 b3 by auto
  have "reshape3 (coords geom) = Inr cs
      \<and> get_bending_indices iter_bonds iter_atoms bond_inds = Inr bend_inds
      \<and> get_dihedral_indices bond_inds bend_inds = Inr dihedral_inds
      \<and> list_all2 ?Rb bond_inds bond_rows
      \<and> list_all2 ?Ra bend_inds bend_rows
      \<and> list_all2 ?Rd dihedral_inds dihed_rows
      \<and> get_B_mat iter_bonds iter_atoms CR geom = Inr (bond_rows @ bend_rows @ dihed_rows)
      \<and> length (bond_rows @ bend_rows @ dihed_rows)
          = length bond_inds + length bend_inds + length dihedral_inds
      \<and> (\<forall>row \<in> set (bond_rows @ bend_rows @ dihed_rows). row_length row = ?L)"
    using cs be di b1 [THEN conjunct1] b2 [THEN conjunct1] b3 [THEN conjunct1] run len shape
    by (iprover intro: conjI)
  then have "\<exists>cs bend_inds dihedral_inds bond_rows bend_rows dihed_rows.
        reshape3 (coords geom) = Inr cs
      \<and> get_bending_indices iter_bonds iter_atoms bond_inds = Inr bend_inds
      \<and> get_dihedral_indices bond_inds bend_inds = Inr dihedral_inds
      \<and> list_all2 (\<lambda>ind r. case get_bond_B geom ind of
                       Inr row \<Rightarrow> r = Row row
                     | Inl e \<Rightarrow> e = NonFinite \<and> r = NonFiniteRow (3 * length cs))
          bond_inds bond_rows
      \<and> list_all2 (\<lambda>ind r. case get_angle_B geom ind of
                       Inr row \<Rightarrow> r = Row row
                     | Inl e \<Rightarrow> e = NonFinite \<and> r = NonFiniteRow (3 * length cs))
          bend_inds bend_rows
      \<and> list_all2 (\<lambda>ind r. case get_dihedral_B geom ind of
                       Inr row \<Rightarrow> r = Row row
                     | Inl e \<Rightarrow> e = NonFinite \<and> r = NonFiniteRow (3 * length cs))
          dihedral_inds dihed_rows
      \<and> get_B_mat iter_bonds iter_atoms CR geom = Inr (bond_rows @ bend_rows @ dihed_rows)
      \<and> length (bond_rows @ bend_rows @ dihed_rows)
          = length bond_inds + length bend_inds + length dihedral_inds
      \<and> (\<forall>row \<in> set (bond_rows @ bend_rows @ dihed_rows). row_length row = 3 * length cs)"
    by (intro exI [of _ cs] exI [of _ bend_inds] exI [of _ dihedral_inds]
          exI [of _ bond_rows] exI [of _ bend_rows] exI [of _ dihed_rows])
  then show ?thesis by (simp only: Inr sum.case)
qed

text \<open>
  Hydrogen peroxide: three bonds, two angles and one dihedral, a matrix of six rows with
  twelve entries each.
\<close>

lemma hooh_bends:
  "get_bending_indices (\<lambda>B. [{0, 2}, {1, 3}, {2, 3}]) sorted_list_of_set [(0, 2), (1, 3), (2, 3)]
     = Inr [(0, 2, 3), (1, 3, 2)]"
  by code_simp

lemma hooh_dihedrals:
  "get_dihedral_indices [(0, 2), (1, 3), (2, 3)] [(0, 2, 3), (1, 3, 2)] = Inr [(1, 3, 2, 0)]"
  by code_simp

lemma hooh_bond_rows:
  "emap (\<lambda>ind. as_row hooh (get_bond_B hooh ind)) [(0, 2), (1, 3), (2, 3)]
     = Inr [Row [0, 1, 0, 0, 0, 0, 0, - 1, 0, 0, 0, 0],
            Row [0, 0, 0, 0, 1, 0, 0, 0, 0, 0, - 1, 0],
            Row [0, 0, 0, 0, 0, 0, - 1, 0, 0, 1, 0, 0]]"
  by (simp add: as_row_def get_bond_B_def hooh_reshape ebind_def getitem_def Let_def vzero_def)

lemma hooh_angle_rows:
  "emap (\<lambda>ind. as_row hooh (get_angle_B hooh ind)) [(0, 2, 3), (1, 3, 2)]
     = Inr [Row [- 1, 0, 0, 0, 0, 0, 1, 1 / 2, 0, 0, - 1 / 2, 0],
            Row [0, 0, 0, 1, 0, 0, 0, - 1 / 2, 0, - 1, 1 / 2, 0]]"
  by (simp add: as_row_def get_angle_B_def hooh_reshape ebind_def getitem_def Let_def
        not_are_parallel_orth vzero_def)

lemma hooh_dihedral_rows:
  "emap (\<lambda>ind. as_row hooh (get_dihedral_B hooh ind)) [(1, 3, 2, 0)]
     = Inr [Row [0, 0, - 1, 0, 0, 1, 0, 0, 1, 0, 0, - 1]]"
  by (simp add: as_row_def get_dihedral_B_def hooh_reshape ebind_def getitem_def fdiv_def
        Let_def vzero_def)

lemma hooh_B_mat:
  "get_B_mat (\<lambda>B. [{0, 2}, {1, 3}, {2, 3}]) sorted_list_of_set radii_example hooh
     = Inr [Row [0, 1, 0, 0, 0, 0, 0, - 1, 0, 0, 0, 0],
            Row [0, 0, 0, 0, 1, 0, 0, 0, 0, 0, - 1, 0],
            Row [0, 0, 0, 0, 0, 0, - 1, 0, 0, 1, 0, 0],
            Row [- 1, 0, 0, 0, 0, 0, 1, 1 / 2, 0, 0, - 1 / 2, 0],
            Row [0, 0, 0, 1, 0, 0, 0, - 1 / 2, 0, - 1, 1 / 2, 0],
            Row [0, 0, - 1, 0, 0, 1, 0, 0, 1, 0, 0, - 1]]"
  by (simp only: get_B_mat_def hooh_bonds hooh_bends hooh_dihedrals hooh_bond_rows
        hooh_angle_rows hooh_dihedral_rows ebind_def sum.case append.simps)

lemma hooh_iter_bonds:
  "\<forall>bond_inds. get_bond_indices radii_example hooh (13 / 10) = Inr bond_inds \<longrightarrow>
      set ((\<lambda>B. [{0, 2}, {1, 3}, {2, 3}]) (frozensets bond_inds)) = frozensets bond_inds
      \<and> distinct ((\<lambda>B. [{0, 2}, {1, 3}, {2, 3 :: nat}]) (frozensets bond_inds))"
  unfolding hooh_bonds by (auto simp: frozensets_def doubleton_eq_iff)

lemma sorted_list_of_set_iter:
  "\<forall>S :: nat set. finite S \<longrightarrow> set (sorted_list_of_set S) = S \<and> distinct (sorted_list_of_set S)"
  by simp

theorem get_B_mat_stack_witness:
  "get_B_mat (\<lambda>B. [{0, 2}, {1, 3}, {2, 3}]) sorted_list_of_set radii_example hooh
     = Inr [Row [0, 1, 0, 0, 0, 0, 0, - 1, 0, 0, 0, 0],
            Row [0, 0, 0, 0, 1, 0, 0, 0, 0, 0, - 1, 0],
            Row [0, 0, 0, 0, 0, 0, - 1, 0, 0, 1, 0, 0],
            Row [- 1, 0, 0, 0, 0, 0, 1, 1 / 2, 0, 0, - 1 / 2, 0],
            Row [0, 0, 0, 1, 0, 0, 0, - 1 / 2, 0, - 1, 1 / 2, 0],
            Row [0, 0, - 1, 0, 0, 1, 0, 0, 1, 0, 0, - 1]]
   \<and> (\<exists>cs bend_inds dihedral_inds bond_rows bend_rows dihed_rows.
          reshape3 (coords hooh) = Inr cs
        \<and> get_bending_indices (\<lambda>B. [{0, 2}, {1, 3}, {2, 3}]) sorted_list_of_set
            [(0, 2), (1, 3), (2, 3)] = Inr bend_inds
        \<and> get_dihedral_indices [(0, 2), (1, 3), (2, 3)] bend_inds = Inr dihedral_inds
        \<and> list_all2 (\<lambda>ind r. case get_bond_B hooh ind of
                         Inr row \<Rightarrow> r = Row row
                       | Inl e \<Rightarrow> e = NonFinite \<and> r = NonFiniteRow (3 * length cs))
            [(0, 2), (1, 3), (2, 3)] bond_rows
        \<and> list_all2 (\<lambda>ind r. case get_angle_B hooh ind of
                         Inr row \<Rightarrow> r = Row row
                       | Inl e \<Rightarrow> e = NonFinite \<and> r = NonFiniteRow (3 * length cs))
            bend_inds bend_rows
        \<and> list_all2 (\<lambda>ind r. case get_dihedral_B hooh ind of
                         Inr row \<Rightarrow> r = Row row
                       | Inl e \<Rightarrow> e = NonFinite \<and> r = NonFiniteRow (3 * length cs))
            dihedral_inds dihed_rows
        \<and> get_B_mat (\<lambda>B. [{0, 2}, {1, 3}, {2, 3}]) sorted_list_of_set radii_example hooh
            = Inr (bond_rows @ bend_rows @ dihed_rows)
        \<and> length (bond_rows @ bend_rows @ dihed_rows)
            = length [(0, 2), (1, 3), (2, 3) :: nat \<times> nat] + length bend_inds
              + length dihedral_inds
        \<and> (\<forall>row \<in> set (bond_rows @ bend_rows @ dihed_rows). row_length row = 3 * length cs))"
proof -
  note t = get_B_mat_stack
    [where CR = radii_example and geom = hooh and iter_bonds = "\<lambda>B. [{0, 2}, {1, 3}, {2, 3}]"
       and iter_atoms = sorted_list_of_set, OF hooh_iter_bonds sorted_list_of_set_iter,
     unfolded hooh_bonds sum.case]
  show ?thesis using hooh_B_mat t by (rule conjI)
qed

text \<open>
  Four atoms on a straight line: the angle \<open>0 - 1 - 2\<close> is a straight angle, its sine
  is zero, and \<^verbatim>\<open>get_dihedral_B\<close> divides by it. \<^verbatim>\<open>get_B_mat\<close> does not raise: the
  matrix has its six rows, three bonds, two angles, and the row of the dihedral, which has
  no finite entry.
\<close>

lemma lin4_reshape: "reshape3 (coords lin4) = Inr [(0, 0, 0), (1, 0, 0), (2, 0, 0), (3, 0, 0)]"
  by (simp add: lin4_def ebind_def)

lemma lin4_bonds: "get_bond_indices radii_example lin4 (13 / 10) = Inr [(0, 1), (1, 2), (2, 3)]"
  by (simp add: get_bond_indices_def lin4_reshape ebind_def pdist_def upt4 Let_def)
     (simp add: lin4_def radii_example_def getitem_def lookup_def lower_H ebind_def
        sqrt_le_iff_sq power2_eq_square make_fragments_def Let_def)

lemma lin4_bends:
  "get_bending_indices (\<lambda>B. [{0, 1}, {1, 2}, {2, 3}]) sorted_list_of_set [(0, 1), (1, 2), (2, 3)]
     = Inr [(0, 1, 2), (1, 2, 3)]"
  by code_simp

lemma lin4_dihedrals:
  "get_dihedral_indices [(0, 1), (1, 2), (2, 3)] [(0, 1, 2), (1, 2, 3)] = Inr [(0, 1, 2, 3)]"
  by code_simp

lemma lin4_dihedral_row: "get_dihedral_B lin4 (0, 1, 2, 3) = Inl NonFinite"
  by (simp add: get_dihedral_B_def lin4_reshape ebind_def getitem_def fdiv_def Let_def)

lemma are_parallel_opposite: "vdot u v = - 1 \<Longrightarrow> are_parallel u v (1 / 1000000)"
  using pi_gt_zero by (simp add: are_parallel_def)

lemma not_are_parallel_same: "vdot u v = 1 \<Longrightarrow> \<not> are_parallel u v (1 / 1000000)"
  using pi_ge_two by (simp add: are_parallel_def)

lemma lin4_angle_rows:
  "emap (\<lambda>ind. as_row lin4 (get_angle_B lin4 ind)) [(0, 1, 2), (1, 2, 3)]
     = Inr [Row [0, 1 / sqrt 2, - (1 / sqrt 2), 0, - (2 / sqrt 2), 2 / sqrt 2,
                 0, 1 / sqrt 2, - (1 / sqrt 2), 0, 0, 0],
            Row [0, 0, 0, 0, 1 / sqrt 2, - (1 / sqrt 2), 0, - (2 / sqrt 2), 2 / sqrt 2,
                 0, 1 / sqrt 2, - (1 / sqrt 2)]]"
  by (simp add: as_row_def get_angle_B_def lin4_reshape ebind_def getitem_def Let_def
        are_parallel_opposite not_are_parallel_same vzero_def)

lemma lin4_bond_rows:
  "emap (\<lambda>ind. as_row lin4 (get_bond_B lin4 ind)) [(0, 1), (1, 2), (2, 3)]
     = Inr [Row [- 1, 0, 0, 1, 0, 0, 0, 0, 0, 0, 0, 0],
            Row [0, 0, 0, - 1, 0, 0, 1, 0, 0, 0, 0, 0],
            Row [0, 0, 0, 0, 0, 0, - 1, 0, 0, 1, 0, 0]]"
  by (simp add: as_row_def get_bond_B_def lin4_reshape ebind_def getitem_def Let_def vzero_def)

lemma lin4_dihedral_rows:
  "emap (\<lambda>ind. as_row lin4 (get_dihedral_B lin4 ind)) [(0, 1, 2, 3)] = Inr [NonFiniteRow 12]"
proof -
  have "as_row lin4 (get_dihedral_B lin4 (0, 1, 2, 3)) = Inr (NonFiniteRow 12)"
    unfolding lin4_dihedral_row by (simp add: as_row_def lin4_def)
  then show ?thesis by (simp only: emap.simps ebind_def sum.case)
qed

lemma lin4_B_mat:
  "get_B_mat (\<lambda>B. [{0, 1}, {1, 2}, {2, 3}]) sorted_list_of_set radii_example lin4
     = Inr [Row [- 1, 0, 0, 1, 0, 0, 0, 0, 0, 0, 0, 0],
            Row [0, 0, 0, - 1, 0, 0, 1, 0, 0, 0, 0, 0],
            Row [0, 0, 0, 0, 0, 0, - 1, 0, 0, 1, 0, 0],
            Row [0, 1 / sqrt 2, - (1 / sqrt 2), 0, - (2 / sqrt 2), 2 / sqrt 2,
                 0, 1 / sqrt 2, - (1 / sqrt 2), 0, 0, 0],
            Row [0, 0, 0, 0, 1 / sqrt 2, - (1 / sqrt 2), 0, - (2 / sqrt 2), 2 / sqrt 2,
                 0, 1 / sqrt 2, - (1 / sqrt 2)],
            NonFiniteRow 12]"
  by (simp only: get_B_mat_def lin4_bonds lin4_bends lin4_dihedrals lin4_bond_rows
        lin4_angle_rows lin4_dihedral_rows ebind_def sum.case append.simps)

end
